theory Spec2Isabelle
  imports Complex_Main "HOL-Library.AList"
begin

section \<open>Strings as the analysis function sees them\<close>

text \<open>
  File contents reach the classifier through \<^verbatim>\<open>atob\<close>, whose result holds only code
  units below 256, so a \<^typ>\<open>string\<close> (a list of 8-bit characters) is the exact carrier.
  Paths are modelled over the same carrier (code units below 256, read as Latin-1).
\<close>

text \<open>\<^verbatim>\<open>s.split(sep)\<close> for a one-character separator: never empty, one more piece than
  there are separators.\<close>

fun split_js :: "char \<Rightarrow> string \<Rightarrow> string list" where
  "split_js sep [] = [[]]"
| "split_js sep (c # cs) =
     (if c = sep then [] # split_js sep cs
      else (case split_js sep cs of
              [] \<Rightarrow> [[c]]
            | piece # pieces \<Rightarrow> (c # piece) # pieces))"

text \<open>\<^verbatim>\<open>String.prototype.trim\<close>: the white space and line terminator code units below 256
  are TAB, LF, VT, FF, CR, SP and NBSP.\<close>

definition isWhiteSpace :: "char \<Rightarrow> bool" where
  "isWhiteSpace c = ((of_char c :: nat) \<in> {9, 10, 11, 12, 13, 32, 160})"

definition trim :: "string \<Rightarrow> string" where
  "trim s = rev (dropWhile isWhiteSpace (rev (dropWhile isWhiteSpace s)))"

text \<open>\<^verbatim>\<open>String.prototype.toLowerCase\<close> on code units below 256: A-Z and the Latin-1 capitals
  (0xC0-0xDE without the multiplication sign 0xD7) move up by 32, which sets bit 5.\<close>

definition toLowerCase_char :: "char \<Rightarrow> char" where
  "toLowerCase_char c =
     (let n = (of_char c :: nat)
      in if (65 \<le> n \<and> n \<le> 90) \<or> (192 \<le> n \<and> n \<le> 222 \<and> n \<noteq> 215)
         then (case c of Char b0 b1 b2 b3 b4 b5 b6 b7 \<Rightarrow> Char b0 b1 b2 b3 b4 True b6 b7)
         else c)"

definition toLowerCase :: "string \<Rightarrow> string" where
  "toLowerCase s = map toLowerCase_char s"

definition startsWith :: "string \<Rightarrow> string \<Rightarrow> bool" where
  "startsWith s p = (take (length p) s = p)"

text \<open>\<^verbatim>\<open>'.' + path.split('.').pop()?.toLowerCase()\<close>; \<^verbatim>\<open>pop\<close> on the never-empty result of
  \<^verbatim>\<open>split\<close> is its last piece.\<close>

definition extensionOf :: "string \<Rightarrow> string" where
  "extensionOf path = ''.'' @ toLowerCase (last (split_js (CHR ''.'') path))"


section \<open>Line classifier\<close>

definition languageMap :: "(string \<times> string) list" where
  "languageMap =
    [(''.js'', ''JavaScript''), (''.jsx'', ''JavaScript''),
     (''.ts'', ''TypeScript''), (''.tsx'', ''TypeScript''),
     (''.py'', ''Python''), (''.java'', ''Java''), (''.cpp'', ''C++''),
     (''.c'', ''C''), (''.h'', ''C/C++''), (''.cs'', ''C#''),
     (''.php'', ''PHP''), (''.rb'', ''Ruby''), (''.go'', ''Go''),
     (''.rs'', ''Rust''), (''.swift'', ''Swift''), (''.kt'', ''Kotlin''),
     (''.scala'', ''Scala''), (''.html'', ''HTML''), (''.css'', ''CSS''),
     (''.scss'', ''SCSS''), (''.vue'', ''Vue''), (''.svelte'', ''Svelte'')]"

definition getLanguageFromFile :: "string \<Rightarrow> string" where
  "getLanguageFromFile filePath =
     (case map_of languageMap (extensionOf filePath) of
        Some language \<Rightarrow> language
      | None \<Rightarrow> ''Other'')"

record CommentPatterns =
  single :: "string list"
  multi :: "(string \<times> string) list"

definition cStyle :: CommentPatterns where
  "cStyle = \<lparr>single = [''//''], multi = [(''/*'', ''*/'')]\<rparr>"

definition patterns :: "(string \<times> CommentPatterns) list" where
  "patterns =
    [(''JavaScript'', cStyle), (''TypeScript'', cStyle),
     (''Python'', \<lparr>single = [''#''],
                   multi = [([CHR 0x22, CHR 0x22, CHR 0x22], [CHR 0x22, CHR 0x22, CHR 0x22]),
                            ([CHR 0x27, CHR 0x27, CHR 0x27], [CHR 0x27, CHR 0x27, CHR 0x27])]\<rparr>),
     (''Java'', cStyle), (''C++'', cStyle), (''C'', cStyle), (''C#'', cStyle),
     (''PHP'', \<lparr>single = [''//'', ''#''], multi = [(''/*'', ''*/'')]\<rparr>),
     (''Ruby'', \<lparr>single = [''#''], multi = [(''=begin'', ''=end'')]\<rparr>),
     (''Go'', cStyle), (''Rust'', cStyle),
     (''HTML'', \<lparr>single = [], multi = [(''<!--'', ''-->'')]\<rparr>),
     (''CSS'', \<lparr>single = [], multi = [(''/*'', ''*/'')]\<rparr>)]"

definition getCommentPatterns :: "string \<Rightarrow> CommentPatterns" where
  "getCommentPatterns language =
     (case map_of patterns language of
        Some p \<Rightarrow> p
      | None \<Rightarrow> \<lparr>single = [], multi = []\<rparr>)"

definition isCommentLine :: "string \<Rightarrow> CommentPatterns \<Rightarrow> bool" where
  "isCommentLine line pats =
     (list_ex (startsWith line) (single pats)
      \<or> list_ex (\<lambda>pattern. startsWith line (fst pattern)) (multi pats))"

record FileStats =
  totalLines :: nat
  codeLines :: nat
  commentLines :: nat
  blankLines :: nat

definition zeroStats :: FileStats where
  "zeroStats = \<lparr>totalLines = 0, codeLines = 0, commentLines = 0, blankLines = 0\<rparr>"

text \<open>One pass of the \<^verbatim>\<open>for (const line of lines)\<close> loop over the three counters
  (code, comment, blank).\<close>

definition classifyLine :: "CommentPatterns \<Rightarrow> nat \<times> nat \<times> nat \<Rightarrow> string \<Rightarrow> nat \<times> nat \<times> nat" where
  "classifyLine commentPatterns counters line =
     (case counters of (code, comment, blank) \<Rightarrow>
        (let trimmedLine = trim line
         in if trimmedLine = [] then (code, comment, blank + 1)
            else if isCommentLine trimmedLine commentPatterns then (code, comment + 1, blank)
            else (code + 1, comment, blank)))"

definition analyzeTextContent :: "string \<Rightarrow> string \<Rightarrow> FileStats" where
  "analyzeTextContent content filePath =
     (let lns = split_js (CHR 0x0A) content;
          language = getLanguageFromFile filePath;
          commentPatterns = getCommentPatterns language
      in case foldl (classifyLine commentPatterns) (0, 0, 0) lns of
           (code, comment, blank) \<Rightarrow>
             \<lparr>totalLines = length lns, codeLines = code,
              commentLines = comment, blankLines = blank\<rparr>)"


section \<open>The remote interface\<close>

text \<open>
  \<^verbatim>\<open>makeRequest\<close> either returns the decoded body or throws. A response is what the
  provider answers to one request: a body, a status outside 2xx with its text, or a failure
  of \<^verbatim>\<open>fetch\<close> or \<^verbatim>\<open>json()\<close> itself.
\<close>

datatype error = GitHubApiError nat string | FetchError string | TypeError string

datatype 'a response = Ok 'a | NotOk nat string | Failed string

fun makeRequest :: "'a response \<Rightarrow> error + 'a" where
  "makeRequest (Ok body) = Inr body"
| "makeRequest (NotOk status statusText) = Inl (GitHubApiError status statusText)"
| "makeRequest (Failed msg) = Inl (FetchError msg)"

text \<open>Of the provider's repository and user objects only the fields the analysis reads
  are kept; a member of a listing page has no \<^verbatim>\<open>email\<close> field, a detailed profile has
  one that may be null.\<close>

record Repository =
  name :: string
  full_name :: string
  default_branch :: string

record User =
  login :: string
  email :: "string option"

record Organization =
  org_login :: string

record TreeEntry =
  path :: string
  entry_type :: string
  entry_size :: nat
  entry_url :: string

record Blob =
  encoding :: string
  content :: string

text \<open>The requests a run issues, in order; the page size and the page number are the
  \<^verbatim>\<open>per_page\<close> and \<^verbatim>\<open>page\<close> parameters of the URL.\<close>

datatype request =
    GetOrg string
  | GetOrgRepos string nat nat
  | GetOrgMembers string nat nat
  | GetUserDetail string
  | GetRepoCommits string string string nat nat
  | GetRepoPulls string string nat nat
  | GetGitTree string string
  | GetBlob string

record GitActorRaw =
  raw_name :: "string option"
  raw_email :: "string option"
  raw_date :: "string option"

record RawCommit =
  raw_sha :: string
  raw_author :: "GitActorRaw option"
  raw_committer :: "GitActorRaw option"
  raw_message :: string
  raw_html_url :: string

record RawPull =
  raw_id :: nat
  raw_number :: nat
  raw_title :: string
  raw_state :: string
  raw_user :: "User option"
  raw_created_at :: string
  raw_updated_at :: string
  raw_closed_at :: "string option"
  raw_merged_at :: "string option"
  raw_pr_html_url :: string
  raw_additions :: "nat option"
  raw_deletions :: "nat option"
  raw_changed_files :: "nat option"

text \<open>The provider as one run sees it, together with the two platform functions the code
  calls: \<^verbatim>\<open>atob\<close> (\<open>None\<close> where it throws) and \<^verbatim>\<open>new Date(s).getTime()\<close>
  (\<open>None\<close> for \<^verbatim>\<open>NaN\<close>).\<close>

record World =
  org :: "string \<Rightarrow> Organization response"
  orgRepos :: "string \<Rightarrow> nat \<Rightarrow> nat \<Rightarrow> Repository list response"
  orgMembers :: "string \<Rightarrow> nat \<Rightarrow> nat \<Rightarrow> User list response"
  userDetail :: "string \<Rightarrow> User response"
  repoCommits :: "string \<Rightarrow> string \<Rightarrow> string \<Rightarrow> nat \<Rightarrow> nat \<Rightarrow> RawCommit list response"
  repoPulls :: "string \<Rightarrow> string \<Rightarrow> nat \<Rightarrow> nat \<Rightarrow> RawPull list response"
  gitTree :: "string \<Rightarrow> string \<Rightarrow> TreeEntry list response"
  blob :: "string \<Rightarrow> Blob response"
  atob :: "string \<Rightarrow> string option"
  getTime :: "string \<Rightarrow> int option"


section \<open>File selector\<close>

definition includeExtensions :: "string list" where
  "includeExtensions =
    [''.js'', ''.jsx'', ''.ts'', ''.tsx'', ''.py'', ''.java'', ''.cpp'', ''.c'', ''.h'', ''.cs'',
     ''.php'', ''.rb'', ''.go'', ''.rs'', ''.swift'', ''.kt'', ''.scala'', ''.clj'', ''.hs'',
     ''.ml'', ''.r'', ''.m'', ''.pl'', ''.sh'', ''.sql'', ''.html'', ''.css'', ''.scss'',
     ''.less'', ''.vue'', ''.svelte'', ''.dart'', ''.lua'', ''.nim'', ''.zig'']"

text \<open>The callback of \<^verbatim>\<open>data.tree.filter\<close>.\<close>

definition isCodeFile :: "TreeEntry \<Rightarrow> bool" where
  "isCodeFile item =
     (if entry_type item \<noteq> ''blob'' then False
      else extensionOf (path item) \<in> set includeExtensions)"

definition getRepositoryFiles :: "World \<Rightarrow> Repository \<Rightarrow> TreeEntry list \<times> request list" where
  "getRepositoryFiles w repo =
     (case makeRequest (gitTree w (full_name repo) (default_branch repo)) of
        Inl e \<Rightarrow> ([], [GetGitTree (full_name repo) (default_branch repo)])
      | Inr tree \<Rightarrow>
          (take 100 (filter isCodeFile tree),
           [GetGitTree (full_name repo) (default_branch repo)]))"


section \<open>Numbers as the engine stores them\<close>

text \<open>
  Every number of the program is an IEEE 754 double. The line and file counters stay whole
  numbers, which a double holds exactly below \<open>2 ^ 53\<close>; they are naturals here. A
  percentage is the result of a division and a multiplication, each of which the engine
  rounds to the nearest double, ties going to the even significand. A double is modelled by
  the rational it stands for, and the rounding is written out: 53 significant bits,
  exponents from \<open>-1022\<close> up, with the fixed spacing \<open>2 ^ -1074\<close> below that. Magnitudes
  from \<open>2 ^ 1024\<close> on, where the engine answers \<^verbatim>\<open>Infinity\<close>, do not arise from a
  percentage.
\<close>

text \<open>The number of binary digits of a natural number.\<close>

fun bitLength :: "nat \<Rightarrow> nat" where
  "bitLength n = (if n = 0 then 0 else Suc (bitLength (n div 2)))"

declare bitLength.simps [simp del]

text \<open>The binary exponent of a positive rational \<open>x\<close>: the \<open>e\<close> with
  \<open>2 ^ e \<le> x < 2 ^ (e + 1)\<close>.\<close>

definition exponentOf :: "rat \<Rightarrow> int" where
  "exponentOf x =
     (if 1 \<le> x then int (bitLength (nat \<lfloor>x\<rfloor>)) - 1
      else - int (bitLength (nat (\<lceil>1 / x\<rceil> - 1))))"

definition roundHalfEven :: "rat \<Rightarrow> int" where
  "roundHalfEven s =
     (let f = \<lfloor>s\<rfloor>; r = s - of_int f
      in if r < 1 / 2 then f
         else if 1 / 2 < r then f + 1
         else if even f then f else f + 1)"

definition roundToDouble :: "rat \<Rightarrow> rat" where
  "roundToDouble x =
     (if x = 0 then 0
      else (let q = max (exponentOf \<bar>x\<bar>) (- 1022) - 52
            in sgn x * of_int (roundHalfEven (\<bar>x\<bar> / 2 powi q)) * 2 powi q))"

text \<open>\<^verbatim>\<open>(lines / totalLines) * 100\<close> on two counters.\<close>

definition percentageOf :: "nat \<Rightarrow> nat \<Rightarrow> rat" where
  "percentageOf l t = roundToDouble (roundToDouble (of_nat l / of_nat t) * 100)"


section \<open>Repository analyzer\<close>

text \<open>The \<open>percentage\<close> of an entry is the rational value of the double the code
  stores.\<close>

record LanguageEntry =
  lines :: nat
  files :: nat
  percentage :: rat

record CodeStats = FileStats +
  repository :: string
  branch :: string
  fileCount :: nat
  languageBreakdown :: "(string \<times> LanguageEntry) list"

text \<open>\<^verbatim>\<open>data.content.replace(/\n/g, '')\<close>\<close>

definition removeNewlines :: "string \<Rightarrow> string" where
  "removeNewlines s = filter (\<lambda>c. c \<noteq> CHR 0x0A) s"

definition analyzeFileContent :: "World \<Rightarrow> TreeEntry \<Rightarrow> FileStats \<times> request list" where
  "analyzeFileContent w file =
     (if entry_size file > 100000 then (zeroStats, [])
      else (case makeRequest (blob w (entry_url file)) of
              Inl e \<Rightarrow> (zeroStats, [GetBlob (entry_url file)])
            | Inr data \<Rightarrow>
                (if encoding data = ''base64''
                 then (case atob w (removeNewlines (content data)) of
                         None \<Rightarrow> (zeroStats, [GetBlob (entry_url file)])
                       | Some decoded \<Rightarrow>
                           (analyzeTextContent decoded (path file), [GetBlob (entry_url file)]))
                 else (zeroStats, [GetBlob (entry_url file)]))))"

definition emptyEntry :: LanguageEntry where
  "emptyEntry = \<lparr>lines = 0, files = 0, percentage = 0\<rparr>"

text \<open>The entry of a language, created on first encounter.\<close>

definition entryOf :: "(string \<times> LanguageEntry) list \<Rightarrow> string \<Rightarrow> LanguageEntry" where
  "entryOf breakdown language =
     (case map_of breakdown language of None \<Rightarrow> emptyEntry | Some e \<Rightarrow> e)"

text \<open>The body of the loop over the selected files, after the two calls.\<close>

definition accumulate :: "CodeStats \<Rightarrow> FileStats \<Rightarrow> string \<Rightarrow> CodeStats" where
  "accumulate stats fileStats language =
     stats\<lparr>totalLines := totalLines stats + totalLines fileStats,
           codeLines := codeLines stats + codeLines fileStats,
           commentLines := commentLines stats + commentLines fileStats,
           blankLines := blankLines stats + blankLines fileStats,
           languageBreakdown :=
             AList.update language
               ((entryOf (languageBreakdown stats) language)
                  \<lparr>lines := lines (entryOf (languageBreakdown stats) language)
                             + totalLines fileStats,
                   files := files (entryOf (languageBreakdown stats) language) + 1\<rparr>)
               (languageBreakdown stats)\<rparr>"

definition analyzeStep :: "World \<Rightarrow> CodeStats \<times> request list \<Rightarrow> TreeEntry
    \<Rightarrow> CodeStats \<times> request list" where
  "analyzeStep w state file =
     (case state of (stats, issued) \<Rightarrow>
        (case analyzeFileContent w file of (fileStats, reqs) \<Rightarrow>
           (accumulate stats fileStats (getLanguageFromFile (path file)), issued @ reqs)))"

definition calculatePercentages :: "CodeStats \<Rightarrow> CodeStats" where
  "calculatePercentages stats =
     stats\<lparr>languageBreakdown :=
             map (\<lambda>(language, e).
                    (language,
                     if totalLines stats > 0
                     then e\<lparr>percentage := percentageOf (lines e) (totalLines stats)\<rparr>
                     else e))
                 (languageBreakdown stats)\<rparr>"

definition initialStats :: "Repository \<Rightarrow> CodeStats" where
  "initialStats repo =
     \<lparr>totalLines = 0, codeLines = 0, commentLines = 0, blankLines = 0,
      repository = name repo, branch = default_branch repo,
      fileCount = 0, languageBreakdown = []\<rparr>"

text \<open>\<^verbatim>\<open>analyzeRepositoryCode\<close> from the point where the selected files are known.\<close>

definition analyzeSelected :: "World \<Rightarrow> Repository \<Rightarrow> TreeEntry list \<Rightarrow> CodeStats \<times> request list" where
  "analyzeSelected w repo selected =
     (case foldl (analyzeStep w) ((initialStats repo)\<lparr>fileCount := length selected\<rparr>, []) selected of
        (stats, issued) \<Rightarrow> (calculatePercentages stats, issued))"

definition analyzeRepositoryCode :: "World \<Rightarrow> Repository \<Rightarrow> CodeStats \<times> request list" where
  "analyzeRepositoryCode w repo =
     (case getRepositoryFiles w repo of (selected, treeReq) \<Rightarrow>
        (case analyzeSelected w repo selected of (stats, issued) \<Rightarrow>
           (stats, treeReq @ issued)))"


text \<open>A breakdown, read as a finite map, with one more file counted for a language.\<close>

definition bumpFiles :: "string \<Rightarrow> (string \<rightharpoonup> LanguageEntry) \<Rightarrow> (string \<rightharpoonup> LanguageEntry)" where
  "bumpFiles language m =
     m(language \<mapsto>
        (case m language of None \<Rightarrow> emptyEntry | Some e \<Rightarrow> e)
          \<lparr>files := files (case m language of None \<Rightarrow> emptyEntry | Some e \<Rightarrow> e) + 1\<rparr>)"


section \<open>Paginated listings\<close>

text \<open>
  Both unbounded \<^verbatim>\<open>while (hasMore)\<close> iterations. A run that never leaves the loop has the
  value \<open>None\<close>; a request that throws ends the run with the error, since neither loop
  catches it. Every value carries the requests issued so far.
\<close>

partial_function (option) getRepositories_loop ::
  "World \<Rightarrow> string \<Rightarrow> nat \<Rightarrow> Repository list \<Rightarrow> request list
     \<Rightarrow> ((error + Repository list) \<times> request list) option" where
  "getRepositories_loop w organization page acc issued =
     (case makeRequest (orgRepos w organization 100 page) of
        Inl e \<Rightarrow> Some (Inl e, issued @ [GetOrgRepos organization 100 page])
      | Inr data \<Rightarrow>
          (if length data = 100
           then getRepositories_loop w organization (page + 1) (acc @ data)
                  (issued @ [GetOrgRepos organization 100 page])
           else Some (Inr (acc @ data), issued @ [GetOrgRepos organization 100 page])))"

definition getRepositories ::
  "World \<Rightarrow> string \<Rightarrow> ((error + Repository list) \<times> request list) option" where
  "getRepositories w organization = getRepositories_loop w organization 1 [] []"

text \<open>The detail lookup of one listed member; a failed lookup keeps the listing entry.\<close>

definition detailOf :: "World \<Rightarrow> User \<Rightarrow> User" where
  "detailOf w member =
     (case makeRequest (userDetail w (login member)) of
        Inl e \<Rightarrow> member
      | Inr detailed \<Rightarrow> detailed)"

partial_function (option) getOrganizationMembers_loop ::
  "World \<Rightarrow> string \<Rightarrow> nat \<Rightarrow> User list \<Rightarrow> request list
     \<Rightarrow> ((error + User list) \<times> request list) option" where
  "getOrganizationMembers_loop w organization page acc issued =
     (case makeRequest (orgMembers w organization 100 page) of
        Inl e \<Rightarrow> Some (Inl e, issued @ [GetOrgMembers organization 100 page])
      | Inr data \<Rightarrow>
          (if length data = 100
           then getOrganizationMembers_loop w organization (page + 1)
                  (acc @ map (detailOf w) data)
                  (issued @ GetOrgMembers organization 100 page
                            # map (\<lambda>member. GetUserDetail (login member)) data)
           else Some (Inr (acc @ map (detailOf w) data),
                      issued @ GetOrgMembers organization 100 page
                               # map (\<lambda>member. GetUserDetail (login member)) data)))"

definition getOrganizationMembers ::
  "World \<Rightarrow> string \<Rightarrow> ((error + User list) \<times> request list) option" where
  "getOrganizationMembers w organization = getOrganizationMembers_loop w organization 1 [] []"

definition getOrganization :: "World \<Rightarrow> string \<Rightarrow> (error + Organization) \<times> request list" where
  "getOrganization w organization = (makeRequest (org w organization), [GetOrg organization])"


text \<open>What a listing page holds (nothing when the request fails), whether a page is full,
  that is, returned with exactly 100 items, and whether it is returned with another
  length.\<close>

definition pageItems :: "'a list response \<Rightarrow> 'a list" where
  "pageItems r = (case makeRequest r of Inl e \<Rightarrow> [] | Inr data \<Rightarrow> data)"

definition fullPage :: "'a list response \<Rightarrow> bool" where
  "fullPage r = (case makeRequest r of Inl e \<Rightarrow> False | Inr data \<Rightarrow> length data = 100)"

definition shortPage :: "'a list response \<Rightarrow> bool" where
  "shortPage r = (case makeRequest r of Inl e \<Rightarrow> False | Inr data \<Rightarrow> length data \<noteq> 100)"

text \<open>The requests one page of the member listing costs: the page, then one detail lookup
  for each listed member, in order.\<close>

definition memberPageRequests :: "World \<Rightarrow> string \<Rightarrow> nat \<Rightarrow> request list" where
  "memberPageRequests w organization page =
     GetOrgMembers organization 100 page
       # map (\<lambda>member. GetUserDetail (login member)) (pageItems (orgMembers w organization 100 page))"

section \<open>Commits and pull requests of one repository\<close>

record GitActor =
  actor_name :: string
  actor_email :: string
  date :: string

record Commit =
  sha :: string
  author :: GitActor
  committer :: GitActor
  message :: string
  url :: string

record PullRequest =
  pr_id :: nat
  number :: nat
  title :: string
  state :: string
  user :: "User option"
  created_at :: string
  updated_at :: string
  closed_at :: "string option"
  merged_at :: "string option"
  html_url :: string
  additions :: nat
  deletions :: nat
  changed_files :: nat

text \<open>\<^verbatim>\<open>x || fallback\<close> on an optional string: null, undefined and the empty string are
  falsy.\<close>

definition orElse :: "string option \<Rightarrow> string \<Rightarrow> string" where
  "orElse x fallback = (case x of None \<Rightarrow> fallback | Some s \<Rightarrow> if s = [] then fallback else s)"

definition orZero :: "nat option \<Rightarrow> nat" where
  "orZero x = (case x of None \<Rightarrow> 0 | Some n \<Rightarrow> n)"

definition toActor :: "GitActorRaw option \<Rightarrow> GitActor" where
  "toActor a =
     \<lparr>actor_name = orElse (Option.bind a raw_name) ''Unknown'',
      actor_email = orElse (Option.bind a raw_email) [],
      date = orElse (Option.bind a raw_date) []\<rparr>"

definition toCommit :: "RawCommit \<Rightarrow> Commit" where
  "toCommit c =
     \<lparr>sha = raw_sha c, author = toActor (raw_author c), committer = toActor (raw_committer c),
      message = raw_message c, url = raw_html_url c\<rparr>"

definition toPullRequest :: "RawPull \<Rightarrow> PullRequest" where
  "toPullRequest pr =
     \<lparr>pr_id = raw_id pr, number = raw_number pr, title = raw_title pr,
      state = (if orElse (raw_merged_at pr) [] \<noteq> [] then ''merged'' else raw_state pr),
      user = raw_user pr, created_at = raw_created_at pr, updated_at = raw_updated_at pr,
      closed_at = raw_closed_at pr, merged_at = raw_merged_at pr,
      html_url = raw_pr_html_url pr,
      additions = orZero (raw_additions pr), deletions = orZero (raw_deletions pr),
      changed_files = orZero (raw_changed_files pr)\<rparr>"

function getRepositoryCommits_loop ::
  "World \<Rightarrow> string \<Rightarrow> string \<Rightarrow> string \<Rightarrow> nat \<Rightarrow> Commit list \<Rightarrow> request list
     \<Rightarrow> Commit list \<times> request list" where
  "getRepositoryCommits_loop w organization repo br page acc issued =
     (if page \<le> 10
      then (case makeRequest (repoCommits w organization repo br 100 page) of
              Inl e \<Rightarrow> (acc, issued @ [GetRepoCommits organization repo br 100 page])
            | Inr data \<Rightarrow>
                (if length data = 100
                 then getRepositoryCommits_loop w organization repo br (page + 1)
                        (acc @ map toCommit data)
                        (issued @ [GetRepoCommits organization repo br 100 page])
                 else (acc @ map toCommit data,
                       issued @ [GetRepoCommits organization repo br 100 page])))
      else (acc, issued))"
  by pat_completeness auto
termination
  by (relation "measure (\<lambda>(w, organization, repo, br, page, acc, issued). 11 - page)") auto

definition getRepositoryCommits ::
  "World \<Rightarrow> string \<Rightarrow> string \<Rightarrow> string \<Rightarrow> Commit list \<times> request list" where
  "getRepositoryCommits w organization repo br =
     getRepositoryCommits_loop w organization repo br 1 [] []"

function getRepositoryPullRequests_loop ::
  "World \<Rightarrow> string \<Rightarrow> string \<Rightarrow> nat \<Rightarrow> PullRequest list \<Rightarrow> request list
     \<Rightarrow> PullRequest list \<times> request list" where
  "getRepositoryPullRequests_loop w organization repo page acc issued =
     (if page \<le> 5
      then (case makeRequest (repoPulls w organization repo 100 page) of
              Inl e \<Rightarrow> (acc, issued @ [GetRepoPulls organization repo 100 page])
            | Inr data \<Rightarrow>
                (if length data = 100
                 then getRepositoryPullRequests_loop w organization repo (page + 1)
                        (acc @ map toPullRequest data)
                        (issued @ [GetRepoPulls organization repo 100 page])
                 else (acc @ map toPullRequest data,
                       issued @ [GetRepoPulls organization repo 100 page])))
      else (acc, issued))"
  by pat_completeness auto
termination
  by (relation "measure (\<lambda>(w, organization, repo, page, acc, issued). 6 - page)") auto

definition getRepositoryPullRequests ::
  "World \<Rightarrow> string \<Rightarrow> string \<Rightarrow> PullRequest list \<times> request list" where
  "getRepositoryPullRequests w organization repo =
     getRepositoryPullRequests_loop w organization repo 1 [] []"


section \<open>Organization aggregator\<close>

record UserStats =
  user_profile :: User
  commits :: nat
  pullRequests :: nat
  linesAdded :: nat
  linesDeleted :: nat
  user_repositories :: "string list"
  user_languages :: "(string \<times> nat) list"
  lastActivity :: string

text \<open>\<^verbatim>\<open>userStatsMap\<close> is a \<^verbatim>\<open>Map\<close> keyed by login: setting a key that is present keeps its
  position and replaces its value, a new key goes to the end.\<close>

definition initUserStats :: "User list \<Rightarrow> (string \<times> UserStats) list" where
  "initUserStats mems =
     foldl (\<lambda>m member.
              AList.update (login member)
                \<lparr>user_profile = member, commits = 0, pullRequests = 0, linesAdded = 0,
                 linesDeleted = 0, user_repositories = [], user_languages = [],
                 lastActivity = []\<rparr> m)
           [] mems"

definition findUserByEmail :: "User list \<Rightarrow> string \<Rightarrow> User option" where
  "findUserByEmail mems addr = find (\<lambda>member. email member = Some addr) mems"

text \<open>\<^verbatim>\<open>new Date(d) > new Date(last || 0)\<close>: a comparison with \<^verbatim>\<open>NaN\<close> on either side is
  false.\<close>

definition laterThan :: "World \<Rightarrow> string \<Rightarrow> string \<Rightarrow> bool" where
  "laterThan w d lastSeen =
     (case (getTime w d, if lastSeen = [] then Some 0 else getTime w lastSeen) of
        (Some t, Some t0) \<Rightarrow> t > t0
      | _ \<Rightarrow> False)"

definition processCommit ::
  "World \<Rightarrow> User list \<Rightarrow> (string \<times> UserStats) list \<Rightarrow> Commit \<Rightarrow> (string \<times> UserStats) list" where
  "processCommit w mems m c =
     (case findUserByEmail mems (actor_email (author c)) of
        None \<Rightarrow> m
      | Some found \<Rightarrow>
          (if login found \<noteq> []
           then (case map_of m (login found) of
                   None \<Rightarrow> m
                 | Some us \<Rightarrow>
                     AList.update (login found)
                       (us\<lparr>commits := commits us + 1,
                           lastActivity :=
                             (if laterThan w (date (author c)) (lastActivity us)
                              then date (author c) else lastActivity us)\<rparr>) m)
           else m))"

definition processPullRequest ::
  "World \<Rightarrow> (string \<times> UserStats) list \<Rightarrow> PullRequest \<Rightarrow> error + (string \<times> UserStats) list" where
  "processPullRequest w m pr =
     (case user pr of
        None \<Rightarrow> Inl (TypeError ''Cannot read properties of null (reading 'login')'')
      | Some u \<Rightarrow>
          (case map_of m (login u) of
             None \<Rightarrow> Inr m
           | Some us \<Rightarrow>
               Inr (AList.update (login u)
                      (us\<lparr>pullRequests := pullRequests us + 1,
                          linesAdded := linesAdded us + additions pr,
                          linesDeleted := linesDeleted us + deletions pr,
                          lastActivity :=
                            (if laterThan w (created_at pr) (lastActivity us)
                             then created_at pr else lastActivity us)\<rparr>) m)))"

fun processPullRequests ::
  "World \<Rightarrow> (string \<times> UserStats) list \<Rightarrow> PullRequest list \<Rightarrow> error + (string \<times> UserStats) list" where
  "processPullRequests w m [] = Inr m"
| "processPullRequests w m (pr # prs) =
     (case processPullRequest w m pr of
        Inl e \<Rightarrow> Inl e
      | Inr m' \<Rightarrow> processPullRequests w m' prs)"

definition computeUserStats ::
  "World \<Rightarrow> User list \<Rightarrow> Repository list \<Rightarrow> Commit list \<Rightarrow> PullRequest list
     \<Rightarrow> error + UserStats list" where
  "computeUserStats w mems repos cs prs =
     (case processPullRequests w (foldl (processCommit w mems) (initUserStats mems) cs) prs of
        Inl e \<Rightarrow> Inl e
      | Inr m \<Rightarrow> Inr (map snd m))"

text \<open>
  \<^verbatim>\<open>Array.prototype.sort\<close> with a comparator: stable, and for a consistent comparator
  every stable sort returns the same list; modelled by stable insertion. The comparator's
  result is an integer, \<^verbatim>\<open>NaN\<close> counting as \<open>0\<close>. Where dates fail to parse the
  comparator is no longer consistent and the engine's order depends on its algorithm; the
  model then agrees with the engine on the lists it would leave in place (every
  neighbouring pair comparing as in order), which is the only such case used below.
\<close>

fun insertBy :: "('a \<Rightarrow> 'a \<Rightarrow> int) \<Rightarrow> 'a \<Rightarrow> 'a list \<Rightarrow> 'a list" where
  "insertBy cmp x [] = [x]"
| "insertBy cmp x (y # ys) = (if cmp x y \<le> 0 then x # y # ys else y # insertBy cmp x ys)"

definition sort_js :: "('a \<Rightarrow> 'a \<Rightarrow> int) \<Rightarrow> 'a list \<Rightarrow> 'a list" where
  "sort_js cmp xs = foldr (insertBy cmp) xs []"

text \<open>\<^verbatim>\<open>new Date(b).getTime() - new Date(a).getTime()\<close>\<close>

definition timeDifference :: "World \<Rightarrow> string \<Rightarrow> string \<Rightarrow> int" where
  "timeDifference w b a =
     (case (getTime w b, getTime w a) of
        (Some tb, Some ta) \<Rightarrow> tb - ta
      | _ \<Rightarrow> 0)"

definition compareCommits :: "World \<Rightarrow> Commit \<Rightarrow> Commit \<Rightarrow> int" where
  "compareCommits w a b = timeDifference w (date (author b)) (date (author a))"

definition comparePullRequests :: "World \<Rightarrow> PullRequest \<Rightarrow> PullRequest \<Rightarrow> int" where
  "comparePullRequests w a b = timeDifference w (created_at b) (created_at a)"

definition compareLines :: "string \<times> nat \<Rightarrow> string \<times> nat \<Rightarrow> int" where
  "compareLines a b = int (snd b) - int (snd a)"

definition addLanguage :: "(string \<times> nat) list \<Rightarrow> string \<times> LanguageEntry \<Rightarrow> (string \<times> nat) list" where
  "addLanguage m entry =
     AList.update (fst entry) (orZero (map_of m (fst entry)) + lines (snd entry)) m"

record RecentActivity =
  activity_commits :: "Commit list"
  activity_pullRequests :: "PullRequest list"

record OrganizationStats =
  organization_login :: string
  totalRepositories :: nat
  totalMembers :: nat
  totalCommits :: nat
  totalPullRequests :: nat
  totalLinesOfCode :: nat
  topLanguages :: "(string \<times> nat) list"
  repositories :: "Repository list"
  members :: "User list"
  userStats :: "UserStats list"
  codeStats :: "CodeStats list"
  recentActivity :: RecentActivity

definition computeOrganizationStats ::
  "World \<Rightarrow> Organization \<Rightarrow> Repository list \<Rightarrow> User list \<Rightarrow> UserStats list \<Rightarrow> CodeStats list
     \<Rightarrow> Commit list \<Rightarrow> PullRequest list \<Rightarrow> OrganizationStats" where
  "computeOrganizationStats w orgData repos mems us cs recentCommits recentPullRequests =
     \<lparr>organization_login = org_login orgData,
      totalRepositories = length repos,
      totalMembers = length mems,
      totalCommits = foldl (\<lambda>total u. total + commits u) 0 us,
      totalPullRequests = foldl (\<lambda>total u. total + pullRequests u) 0 us,
      totalLinesOfCode = foldl (\<lambda>total stats. total + totalLines stats) 0 cs,
      topLanguages =
        take 10 (sort_js compareLines
                   (foldl (\<lambda>m stats. foldl addLanguage m (languageBreakdown stats)) [] cs)),
      repositories = repos,
      members = mems,
      userStats = us,
      codeStats = cs,
      recentActivity =
        \<lparr>activity_commits = take 50 (sort_js (compareCommits w) recentCommits),
         activity_pullRequests = take 50 (sort_js (comparePullRequests w) recentPullRequests)\<rparr>\<rparr>"


section \<open>The full analysis\<close>

text \<open>The state of the loop over the repositories: the per-repository statistics, the two
  pools and the requests issued. Nothing in the loop's body throws, so its
  \<^verbatim>\<open>catch\<close> has no branch here.\<close>

definition analyzeRepo ::
  "World \<Rightarrow> string \<Rightarrow> CodeStats list \<times> Commit list \<times> PullRequest list \<times> request list
     \<Rightarrow> Repository \<Rightarrow> CodeStats list \<times> Commit list \<times> PullRequest list \<times> request list" where
  "analyzeRepo w organization pools repo =
     (case pools of (cs, recentCommits, recentPullRequests, issued) \<Rightarrow>
        (case analyzeRepositoryCode w repo of (repoCodeStats, r1) \<Rightarrow>
           (case getRepositoryCommits w organization (name repo) ''main'' of (cms, r2) \<Rightarrow>
              (case getRepositoryPullRequests w organization (name repo) of (prs, r3) \<Rightarrow>
                 (cs @ [repoCodeStats],
                  recentCommits @ take 10 cms,
                  recentPullRequests @ take 5 prs,
                  issued @ r1 @ r2 @ r3)))))"

definition performFullAnalysis ::
  "World \<Rightarrow> string \<Rightarrow> ((error + OrganizationStats) \<times> request list) option" where
  "performFullAnalysis w organization =
     (case getOrganization w organization of
        (Inl e, r0) \<Rightarrow> Some (Inl e, r0)
      | (Inr orgData, r0) \<Rightarrow>
          (case getRepositories w organization of
             None \<Rightarrow> None
           | Some (Inl e, r1) \<Rightarrow> Some (Inl e, r0 @ r1)
           | Some (Inr repos, r1) \<Rightarrow>
               (case getOrganizationMembers w organization of
                  None \<Rightarrow> None
                | Some (Inl e, r2) \<Rightarrow> Some (Inl e, r0 @ r1 @ r2)
                | Some (Inr mems, r2) \<Rightarrow>
                    (case foldl (analyzeRepo w organization) ([], [], [], []) repos of
                       (cs, recentCommits, recentPullRequests, r3) \<Rightarrow>
                         (case computeUserStats w mems repos recentCommits recentPullRequests of
                            Inl e \<Rightarrow> Some (Inl e, r0 @ r1 @ r2 @ r3)
                          | Inr us \<Rightarrow>
                              Some (Inr (computeOrganizationStats w orgData repos mems us cs
                                           recentCommits recentPullRequests),
                                    r0 @ r1 @ r2 @ r3))))))"


text \<open>The parsed author dates of \<^verbatim>\<open>recentActivity.commits\<close> in the statistics a run returns,
  in order (\<open>None\<close> inside the list for a date that does not parse; no list when the run
  returns no statistics).\<close>

definition recentCommitTimes :: "World \<Rightarrow> string \<Rightarrow> int option list option" where
  "recentCommitTimes w organization =
     (case performFullAnalysis w organization of
        Some (Inr stats, issued) \<Rightarrow>
          Some (map (\<lambda>c. getTime w (date (author c))) (activity_commits (recentActivity stats)))
      | _ \<Rightarrow> None)"

text \<open>The commits tally of a login in \<^verbatim>\<open>userStatsMap\<close>.\<close>

definition commitsOf :: "(string \<times> UserStats) list \<Rightarrow> string \<Rightarrow> nat option" where
  "commitsOf m l = map_option commits (map_of m l)"

section \<open>Sample inputs\<close>

text \<open>
  The sample provider answers 404 to every request unless a sample below overrides an
  endpoint. Its two platform tables are the restrictions of \<^verbatim>\<open>atob\<close> and of
  \<^verbatim>\<open>new Date(s).getTime()\<close> to the strings the samples use: the base64 text
  \<^verbatim>\<open>YQovLyBiCgo=\<close> decodes to the bytes of \<open>sampleText\<close>, the empty text to itself
  (three empty files of three languages make \<open>threeLanguageWorld\<close>),
  and the two dates are the first milliseconds of 2020 and of 2021 (UTC).
\<close>

definition exampleRepo :: Repository where
  "exampleRepo = \<lparr>name = ''demo'', full_name = ''acme/demo'', default_branch = ''main''\<rparr>"

definition sampleText :: string where
  "sampleText = ''a'' @ [CHR 0x0A] @ ''// b'' @ [CHR 0x0A, CHR 0x0A]"

definition sampleTimes :: "string \<Rightarrow> int option" where
  "sampleTimes s =
     (if s = ''2020-01-01T00:00:00Z'' then Some 1577836800000
      else if s = ''2021-01-01T00:00:00Z'' then Some 1609459200000
      else None)"

definition sampleAtob :: "string \<Rightarrow> string option" where
  "sampleAtob s =
     (if s = [] then Some []
      else if s = ''YQovLyBiCgo='' then Some sampleText
      else None)"

definition unreachableWorld :: World where
  "unreachableWorld =
     \<lparr>org = (\<lambda>organization. NotOk 404 ''Not Found''),
      orgRepos = (\<lambda>organization per_page page. NotOk 404 ''Not Found''),
      orgMembers = (\<lambda>organization per_page page. NotOk 404 ''Not Found''),
      userDetail = (\<lambda>l. NotOk 404 ''Not Found''),
      repoCommits = (\<lambda>organization repo br per_page page. NotOk 404 ''Not Found''),
      repoPulls = (\<lambda>organization repo per_page page. NotOk 404 ''Not Found''),
      gitTree = (\<lambda>full default. NotOk 404 ''Not Found''),
      blob = (\<lambda>u. NotOk 404 ''Not Found''),
      atob = sampleAtob,
      getTime = sampleTimes\<rparr>"

definition smallFile :: TreeEntry where
  "smallFile = \<lparr>path = ''src/x.js'', entry_type = ''blob'', entry_size = 8,
                 entry_url = ''https://api.github.com/repos/acme/demo/git/blobs/1''\<rparr>"

definition oversizedFile :: TreeEntry where
  "oversizedFile = \<lparr>path = ''dist/bundle.js'', entry_type = ''blob'', entry_size = 100001,
                     entry_url = ''https://api.github.com/repos/acme/demo/git/blobs/2''\<rparr>"

definition dotlessFile :: TreeEntry where
  "dotlessFile = \<lparr>path = ''go'', entry_type = ''blob'', entry_size = 120,
                   entry_url = ''https://api.github.com/repos/acme/demo/git/blobs/3''\<rparr>"

definition oneFileWorld :: World where
  "oneFileWorld =
     unreachableWorld
       \<lparr>gitTree := (\<lambda>full default. Ok [smallFile]),
        blob := (\<lambda>u. Ok \<lparr>encoding = ''base64'', content = ''YQovLyBiCgo='' @ [CHR 0x0A]\<rparr>)\<rparr>"

definition dotlessWorld :: World where
  "dotlessWorld = unreachableWorld\<lparr>gitTree := (\<lambda>full default. Ok [dotlessFile])\<rparr>"


definition threeLanguageWorld :: World where
  "threeLanguageWorld =
     unreachableWorld
       \<lparr>gitTree := (\<lambda>full default.
                     Ok [\<lparr>path = ''src/app.js'', entry_type = ''blob'', entry_size = 0,
                          entry_url = ''https://api.github.com/repos/acme/demo/git/blobs/4''\<rparr>,
                         \<lparr>path = ''tools/build.py'', entry_type = ''blob'', entry_size = 0,
                          entry_url = ''https://api.github.com/repos/acme/demo/git/blobs/5''\<rparr>,
                         \<lparr>path = ''cmd/main.go'', entry_type = ''blob'', entry_size = 0,
                          entry_url = ''https://api.github.com/repos/acme/demo/git/blobs/6''\<rparr>]),
        blob := (\<lambda>u. Ok \<lparr>encoding = ''base64'', content = []\<rparr>)\<rparr>"

definition oversizedOnlyWorld :: World where
  "oversizedOnlyWorld = unreachableWorld\<lparr>gitTree := (\<lambda>full default. Ok [oversizedFile])\<rparr>"

definition emptyFileWorld :: World where
  "emptyFileWorld =
     unreachableWorld\<lparr>blob := (\<lambda>u. Ok \<lparr>encoding = ''base64'', content = []\<rparr>)\<rparr>"


text \<open>One hundred repositories and one hundred listed members with pairwise different
  names, a provider whose listings never end, and one whose listings end on page 2.\<close>

definition hundredRepos :: "Repository list" where
  "hundredRepos =
     map (\<lambda>i. \<lparr>name = replicate i (CHR ''r''), full_name = ''acme/'' @ replicate i (CHR ''r''),
                default_branch = ''main''\<rparr>) [1..<101]"

definition hundredMembers :: "User list" where
  "hundredMembers = map (\<lambda>i. \<lparr>login = replicate i (CHR ''m''), email = None\<rparr>) [1..<101]"

definition alice :: User where
  "alice = \<lparr>login = ''alice'', email = Some ''alice@example.com''\<rparr>"

definition bob :: User where
  "bob = \<lparr>login = ''bob'', email = None\<rparr>"

definition endlessWorld :: World where
  "endlessWorld =
     unreachableWorld
       \<lparr>org := (\<lambda>organization. Ok \<lparr>org_login = ''acme''\<rparr>),
        orgRepos := (\<lambda>organization per_page page. Ok hundredRepos),
        orgMembers := (\<lambda>organization per_page page. Ok hundredMembers)\<rparr>"

definition twoPageWorld :: World where
  "twoPageWorld =
     unreachableWorld
       \<lparr>org := (\<lambda>organization. Ok \<lparr>org_login = ''acme''\<rparr>),
        orgRepos := (\<lambda>organization per_page page.
                      if page = 1 then Ok hundredRepos else Ok [exampleRepo]),
        orgMembers := (\<lambda>organization per_page page.
                        if page = 1 then Ok hundredMembers
                        else Ok [\<lparr>login = ''alice'', email = None\<rparr>]),
        userDetail := (\<lambda>l. if l = ''alice'' then Ok alice else NotOk 404 ''Not Found'')\<rparr>"

text \<open>Three commits of one repository as the provider lists them: the second has no author
  object, the first was authored a year before the third.\<close>

definition rawCommit :: "string \<Rightarrow> GitActorRaw option \<Rightarrow> RawCommit" where
  "rawCommit h a =
     \<lparr>raw_sha = h, raw_author = a, raw_committer = a, raw_message = ''update'',
      raw_html_url = ''https://github.com/acme/demo/commit/'' @ h\<rparr>"

definition authoredAt :: "string \<Rightarrow> GitActorRaw option" where
  "authoredAt d =
     Some \<lparr>raw_name = Some ''Alice'', raw_email = Some ''alice@example.com'', raw_date = Some d\<rparr>"

definition undatedWorld :: World where
  "undatedWorld =
     unreachableWorld
       \<lparr>org := (\<lambda>organization. Ok \<lparr>org_login = ''acme''\<rparr>),
        orgRepos := (\<lambda>organization per_page page. if page = 1 then Ok [exampleRepo] else Ok []),
        orgMembers := (\<lambda>organization per_page page. Ok []),
        repoCommits := (\<lambda>organization repo br per_page page.
                         if page = 1
                         then Ok [rawCommit ''c1'' (authoredAt ''2020-01-01T00:00:00Z''),
                                  rawCommit ''c2'' None,
                                  rawCommit ''c3'' (authoredAt ''2021-01-01T00:00:00Z'')]
                         else Ok []),
        repoPulls := (\<lambda>organization repo per_page page. Ok [])\<rparr>"

definition undatedCommits :: "Commit list" where
  "undatedCommits =
     [toCommit (rawCommit ''c1'' (authoredAt ''2020-01-01T00:00:00Z'')),
      toCommit (rawCommit ''c2'' None),
      toCommit (rawCommit ''c3'' (authoredAt ''2021-01-01T00:00:00Z''))]"

definition sampleCommit :: Commit where
  "sampleCommit = toCommit (rawCommit ''c1'' (authoredAt ''2020-01-01T00:00:00Z''))"

text \<open>A roster entry with an empty login, and a commit authored under its address.\<close>

definition nameless :: User where
  "nameless = \<lparr>login = [], email = Some ''ghost@example.com''\<rparr>"

definition namelessCommit :: Commit where
  "namelessCommit =
     toCommit (rawCommit ''c4''
       (Some \<lparr>raw_name = Some ''Ghost'', raw_email = Some ''ghost@example.com'',
              raw_date = Some ''2020-01-01T00:00:00Z''\<rparr>))"

section \<open>Properties of the line classifier\<close>

lemma split_js_nonempty: "split_js sep s \<noteq> []"
  by (induction s) (auto split: list.splits)

lemma length_split_js: "length (split_js sep s) = count_list s sep + 1"
proof (induction s)
  case Nil
  show ?case by simp
next
  case (Cons c cs)
  obtain piece pieces where "split_js sep cs = piece # pieces"
    using split_js_nonempty [of sep cs] by (cases "split_js sep cs") auto
  with Cons show ?case by simp
qed

lemma classifyLine_sum:
  "(case classifyLine pats (c, m, b) line of (c', m', b') \<Rightarrow> c' + m' + b') = c + m + b + 1"
  by (simp add: classifyLine_def Let_def)

lemma foldl_classifyLine_sum:
  "(case foldl (classifyLine pats) (c, m, b) lns of (c', m', b') \<Rightarrow> c' + m' + b')
     = c + m + b + length lns"
proof (induction lns arbitrary: c m b)
  case Nil
  show ?case by simp
next
  case (Cons l ls)
  obtain c1 m1 b1 where step: "classifyLine pats (c, m, b) l = (c1, m1, b1)"
    by (cases "classifyLine pats (c, m, b) l") auto
  from classifyLine_sum [of pats c m b l] step have "c1 + m1 + b1 = c + m + b + 1"
    by simp
  with Cons [of c1 m1 b1] step show ?case by simp
qed

lemma analyzeTextContent_identity:
  "totalLines (analyzeTextContent input filePath)
     = codeLines (analyzeTextContent input filePath)
       + commentLines (analyzeTextContent input filePath)
       + blankLines (analyzeTextContent input filePath)"
proof -
  let ?pats = "getCommentPatterns (getLanguageFromFile filePath)"
  let ?lns = "split_js (CHR 0x0A) input"
  obtain c m b where r: "foldl (classifyLine ?pats) (0, 0, 0) ?lns = (c, m, b)"
    by (cases "foldl (classifyLine ?pats) (0, 0, 0) ?lns") auto
  from foldl_classifyLine_sum [of ?pats 0 0 0 ?lns] r have "c + m + b = length ?lns"
    by simp
  with r show ?thesis by (simp add: analyzeTextContent_def Let_def)
qed

lemma analyzeTextContent_totalLines:
  "totalLines (analyzeTextContent input filePath) = count_list input (CHR 0x0A) + 1"
  by (simp add: analyzeTextContent_def Let_def length_split_js split: prod.splits)

lemmas text_defs = analyzeTextContent_def getLanguageFromFile_def extensionOf_def toLowerCase_def
  toLowerCase_char_def languageMap_def getCommentPatterns_def patterns_def cStyle_def
  classifyLine_def trim_def isWhiteSpace_def isCommentLine_def startsWith_def

lemma sample_stats:
  "analyzeTextContent sampleText ''src/x.js''
     = \<lparr>totalLines = 4, codeLines = 1, commentLines = 1, blankLines = 2\<rparr>"
  by (simp add: sampleText_def text_defs)

lemma analyzeTextContent_empty:
  "analyzeTextContent [] filePath
     = \<lparr>totalLines = 1, codeLines = 0, commentLines = 0, blankLines = 1\<rparr>"
  by (simp add: analyzeTextContent_def classifyLine_def trim_def)

text \<open>
  Claim C10. For every content string \<^verbatim>\<open>analyzeTextContent\<close> reports as \<^verbatim>\<open>totalLines\<close> the
  number of line feeds plus one, so at least one line; for the empty string it returns one
  blank line and nothing else, and a file within the size limit whose base64 content decodes
  to the empty string therefore contributes one blank line.
\<close>

theorem totalLines_is_line_feeds_plus_one:
  "totalLines (analyzeTextContent input filePath) = count_list input (CHR 0x0A) + 1
   \<and> 1 \<le> totalLines (analyzeTextContent input filePath)
   \<and> analyzeTextContent [] filePath
       = \<lparr>totalLines = 1, codeLines = 0, commentLines = 0, blankLines = 1\<rparr>
   \<and> (\<not> entry_size f > 100000 \<and> blob w (entry_url f) = Ok data \<and> encoding data = ''base64''
        \<and> atob w (removeNewlines (content data)) = Some []
      \<longrightarrow> fst (analyzeFileContent w f)
            = \<lparr>totalLines = 1, codeLines = 0, commentLines = 0, blankLines = 1\<rparr>)"
  by (simp add: analyzeTextContent_totalLines analyzeTextContent_empty analyzeFileContent_def)

theorem totalLines_is_line_feeds_plus_one_witness:
  "totalLines (analyzeTextContent sampleText ''src/x.js'') = 4
   \<and> \<not> entry_size smallFile > 100000
   \<and> fst (analyzeFileContent emptyFileWorld smallFile)
       = \<lparr>totalLines = 1, codeLines = 0, commentLines = 0, blankLines = 1\<rparr>"
  using totalLines_is_line_feeds_plus_one
          [of sampleText "''src/x.js''" smallFile emptyFileWorld
              "\<lparr>encoding = ''base64'', content = []\<rparr>"]
  by (simp add: sampleText_def emptyFileWorld_def unreachableWorld_def smallFile_def
        removeNewlines_def sampleAtob_def)

text \<open>
  Claim C2, as stated: the content \<^verbatim>\<open>"a\n// b\n\n"\<close> of a JavaScript file gives three lines
  in total, one of code, one comment and one blank. It does not: the text ends in two line
  feeds, so \<^verbatim>\<open>split\<close> returns four pieces, the last two empty.
\<close>

theorem sample_is_not_three_lines:
  "\<not> (totalLines (analyzeTextContent (''a'' @ [CHR 0x0A] @ ''// b'' @ [CHR 0x0A, CHR 0x0A]) ''src/x.js'') = 3
      \<and> codeLines (analyzeTextContent (''a'' @ [CHR 0x0A] @ ''// b'' @ [CHR 0x0A, CHR 0x0A]) ''src/x.js'') = 1
      \<and> commentLines (analyzeTextContent (''a'' @ [CHR 0x0A] @ ''// b'' @ [CHR 0x0A, CHR 0x0A]) ''src/x.js'') = 1
      \<and> blankLines (analyzeTextContent (''a'' @ [CHR 0x0A] @ ''// b'' @ [CHR 0x0A, CHR 0x0A]) ''src/x.js'') = 1)"
  by (simp add: text_defs)

text \<open>
  Claim C2, amended: for the content \<^verbatim>\<open>"a\n// b\n\n"\<close> and any path whose language resolves
  to JavaScript, \<^verbatim>\<open>analyzeTextContent\<close> returns four lines in total: one of code, one
  comment and two blank.
\<close>

theorem sample_is_four_lines:
  assumes "getLanguageFromFile filePath = ''JavaScript''"
  shows "analyzeTextContent (''a'' @ [CHR 0x0A] @ ''// b'' @ [CHR 0x0A, CHR 0x0A]) filePath
     = \<lparr>totalLines = 4, codeLines = 1, commentLines = 1, blankLines = 2\<rparr>"
  by (simp add: analyzeTextContent_def assms getCommentPatterns_def patterns_def cStyle_def
        classifyLine_def trim_def isWhiteSpace_def isCommentLine_def startsWith_def)

theorem sample_is_four_lines_witness:
  "getLanguageFromFile ''src/x.js'' = ''JavaScript''
   \<and> analyzeTextContent (''a'' @ [CHR 0x0A] @ ''// b'' @ [CHR 0x0A, CHR 0x0A]) ''src/x.js''
       = \<lparr>totalLines = 4, codeLines = 1, commentLines = 1, blankLines = 2\<rparr>"
proof -
  have lang: "getLanguageFromFile ''src/x.js'' = ''JavaScript''"
    by (simp add: getLanguageFromFile_def extensionOf_def toLowerCase_def toLowerCase_char_def
          languageMap_def)
  from sample_is_four_lines [OF lang] lang show ?thesis by simp
qed


section \<open>Properties of the repository analyzer\<close>

lemma analyzeFileContent_identity:
  "totalLines (fst (analyzeFileContent w f))
     = codeLines (fst (analyzeFileContent w f)) + commentLines (fst (analyzeFileContent w f))
       + blankLines (fst (analyzeFileContent w f))"
  by (simp add: analyzeFileContent_def zeroStats_def analyzeTextContent_identity
           split: sum.splits option.splits)

lemma analyzeStep_identity:
  assumes "totalLines (fst st) = codeLines (fst st) + commentLines (fst st) + blankLines (fst st)"
  shows "totalLines (fst (analyzeStep w st f))
     = codeLines (fst (analyzeStep w st f)) + commentLines (fst (analyzeStep w st f))
       + blankLines (fst (analyzeStep w st f))"
  using assms analyzeFileContent_identity [of w f]
  by (cases st; cases "analyzeFileContent w f") (simp add: analyzeStep_def accumulate_def)

lemma foldl_analyzeStep_identity:
  "totalLines (fst st) = codeLines (fst st) + commentLines (fst st) + blankLines (fst st) \<Longrightarrow>
   totalLines (fst (foldl (analyzeStep w) st fs))
     = codeLines (fst (foldl (analyzeStep w) st fs))
       + commentLines (fst (foldl (analyzeStep w) st fs))
       + blankLines (fst (foldl (analyzeStep w) st fs))"
proof (induction fs arbitrary: st)
  case Nil
  then show ?case by simp
next
  case (Cons f fs)
  from Cons.prems have "totalLines (fst (analyzeStep w st f))
     = codeLines (fst (analyzeStep w st f)) + commentLines (fst (analyzeStep w st f))
       + blankLines (fst (analyzeStep w st f))"
    by (rule analyzeStep_identity)
  from Cons.IH [OF this] show ?case by simp
qed

lemma analyzeSelected_identity:
  "totalLines (fst (analyzeSelected w repo sel))
     = codeLines (fst (analyzeSelected w repo sel))
       + commentLines (fst (analyzeSelected w repo sel))
       + blankLines (fst (analyzeSelected w repo sel))"
proof -
  let ?st = "((initialStats repo)\<lparr>fileCount := length sel\<rparr>, [] :: request list)"
  have "totalLines (fst ?st) = codeLines (fst ?st) + commentLines (fst ?st) + blankLines (fst ?st)"
    by (simp add: initialStats_def)
  from foldl_analyzeStep_identity [OF this, of w sel] show ?thesis
    by (cases "foldl (analyzeStep w) ?st sel") (simp add: analyzeSelected_def calculatePercentages_def)
qed

lemma analyzeRepositoryCode_fst:
  "fst (analyzeRepositoryCode w repo) = fst (analyzeSelected w repo (fst (getRepositoryFiles w repo)))"
  by (simp add: analyzeRepositoryCode_def split: prod.splits)

text \<open>
  Claim C1. Every line of the input of \<^verbatim>\<open>analyzeTextContent\<close> is counted as exactly one of
  blank, comment or code and \<^verbatim>\<open>totalLines\<close> is the number of lines, so the total is the sum
  of the three counts; the same holds for what \<^verbatim>\<open>analyzeFileContent\<close> returns for any file,
  and for the totals of the statistics \<^verbatim>\<open>analyzeRepositoryCode\<close> returns for any repository
  and any provider.
\<close>

theorem totalLines_is_sum_of_classes:
  "totalLines (analyzeTextContent input filePath)
     = codeLines (analyzeTextContent input filePath)
       + commentLines (analyzeTextContent input filePath)
       + blankLines (analyzeTextContent input filePath)
   \<and> totalLines (analyzeTextContent input filePath) = length (split_js (CHR 0x0A) input)
   \<and> totalLines (fst (analyzeFileContent w f))
     = codeLines (fst (analyzeFileContent w f)) + commentLines (fst (analyzeFileContent w f))
       + blankLines (fst (analyzeFileContent w f))
   \<and> totalLines (fst (analyzeRepositoryCode w repo))
     = codeLines (fst (analyzeRepositoryCode w repo))
       + commentLines (fst (analyzeRepositoryCode w repo))
       + blankLines (fst (analyzeRepositoryCode w repo))"
  using analyzeTextContent_identity [of input filePath] analyzeFileContent_identity [of w f]
    analyzeSelected_identity [of w repo "fst (getRepositoryFiles w repo)"]
  by (simp add: analyzeRepositoryCode_fst analyzeTextContent_def Let_def split: prod.splits)

lemma sum_lines_update:
  "lines v = lines (entryOf al k) + n \<Longrightarrow>
   sum_list (map (\<lambda>p. lines (snd p)) (AList.update k v al)) = sum_list (map (\<lambda>p. lines (snd p)) al) + n"
  by (induction al) (auto simp: entryOf_def emptyEntry_def)

lemma accumulate_sum_lines:
  "sum_list (map (\<lambda>p. lines (snd p)) (languageBreakdown (accumulate stats fs l)))
     = sum_list (map (\<lambda>p. lines (snd p)) (languageBreakdown stats)) + totalLines fs"
  by (simp add: accumulate_def sum_lines_update)

lemma foldl_analyzeStep_sum_lines:
  "sum_list (map (\<lambda>p. lines (snd p)) (languageBreakdown (fst st))) = totalLines (fst st) \<Longrightarrow>
   sum_list (map (\<lambda>p. lines (snd p)) (languageBreakdown (fst (foldl (analyzeStep w) st fs))))
     = totalLines (fst (foldl (analyzeStep w) st fs))"
proof (induction fs arbitrary: st)
  case Nil
  then show ?case by simp
next
  case (Cons f fs)
  obtain stats issued where st: "st = (stats, issued)" by (cases st)
  obtain fileStats reqs where fc: "analyzeFileContent w f = (fileStats, reqs)"
    by (cases "analyzeFileContent w f")
  have step: "fst (analyzeStep w (stats, issued) f)
      = accumulate stats fileStats (getLanguageFromFile (path f))"
    by (simp add: analyzeStep_def fc)
  have "totalLines (accumulate stats fileStats (getLanguageFromFile (path f)))
          = totalLines stats + totalLines fileStats"
    by (simp add: accumulate_def)
  with Cons.prems st have "sum_list (map (\<lambda>p. lines (snd p)) (languageBreakdown (fst (analyzeStep w st f))))
     = totalLines (fst (analyzeStep w st f))"
    by (simp add: step accumulate_sum_lines)
  from Cons.IH [OF this] show ?case by simp
qed

lemma bitLength_upper: "n < 2 ^ bitLength n"
proof (induction n rule: bitLength.induct)
  case (1 n)
  show ?case
  proof (cases "n = 0")
    case True
    then show ?thesis by (simp add: bitLength.simps)
  next
    case False
    with 1 have "n div 2 < 2 ^ bitLength (n div 2)" by simp
    then have "n < 2 * 2 ^ bitLength (n div 2)" by linarith
    with False show ?thesis by (subst bitLength.simps) simp
  qed
qed

lemma bitLength_lower: "0 < n \<Longrightarrow> 2 ^ (bitLength n - 1) \<le> n"
proof (induction n rule: bitLength.induct)
  case (1 n)
  then have n: "n \<noteq> 0" by simp
  show ?case
  proof (cases "n div 2 = 0")
    case True
    with n show ?thesis
      by (subst bitLength.simps) (simp add: bitLength.simps [of 0])
  next
    case False
    with 1 n have ih: "2 ^ (bitLength (n div 2) - 1) \<le> n div 2" by simp
    from False have pos: "0 < bitLength (n div 2)"
      by (subst bitLength.simps) simp
    then have "(2::nat) ^ bitLength (n div 2) = 2 * 2 ^ (bitLength (n div 2) - 1)"
      by (cases "bitLength (n div 2)") simp_all
    with ih have "2 ^ bitLength (n div 2) \<le> n" by linarith
    with n show ?thesis by (subst bitLength.simps) simp
  qed
qed

lemma bitLength_pos: "0 < n \<Longrightarrow> 0 < bitLength n"
  by (subst bitLength.simps) simp

lemma exponentOf_bounds:
  assumes "0 < x"
  shows "2 powi exponentOf x \<le> x \<and> x < 2 powi (exponentOf x + 1)"
proof (cases "1 \<le> x")
  case True
  define n where "n = nat \<lfloor>x\<rfloor>"
  from True have fl: "1 \<le> \<lfloor>x\<rfloor>" by simp
  then have n: "0 < n" "of_nat n = (of_int \<lfloor>x\<rfloor> :: rat)"
    by (simp_all add: n_def)
  define k where "k = bitLength n"
  have k: "0 < k" using n(1) by (simp add: k_def bitLength_pos)
  have e: "exponentOf x = int k - 1"
    using True by (simp add: exponentOf_def k_def n_def)
  have "(2::rat) ^ (k - 1) \<le> of_nat n"
    using bitLength_lower [OF n(1)] unfolding k_def [symmetric]
    by (metis of_nat_le_iff of_nat_numeral of_nat_power)
  also have "\<dots> \<le> x" unfolding n(2) by simp
  finally have low: "(2::rat) ^ (k - 1) \<le> x" .
  have "n + 1 \<le> 2 ^ k" using bitLength_upper [of n] by (simp add: k_def)
  then have "(of_nat (n + 1) :: rat) \<le> 2 ^ k"
    by (metis of_nat_le_iff of_nat_numeral of_nat_power)
  moreover have "x < of_nat (n + 1)" using n(2) by simp linarith
  ultimately have up: "x < 2 ^ k" by linarith
  have p1: "(2::rat) powi (int k - 1) = 2 ^ (k - 1)"
    using k by (metis of_nat_1 of_nat_diff power_int_of_nat Suc_leI One_nat_def)
  have p2: "(2::rat) powi (int k - 1 + 1) = 2 ^ k"
    by simp
  from low up show ?thesis unfolding e p1 p2 by simp
next
  case False
  with assms have x: "0 < x" "x < 1" by simp_all
  define y where "y = 1 / x"
  have y: "1 < y" using x by (simp add: y_def)
  define n where "n = nat (\<lceil>y\<rceil> - 1)"
  have c: "2 \<le> \<lceil>y\<rceil>" using y by linarith
  then have n: "0 < n" "of_nat n = (of_int \<lceil>y\<rceil> :: rat) - 1"
    by (simp_all add: n_def)
  define k where "k = bitLength n"
  have k: "0 < k" using n(1) by (simp add: k_def bitLength_pos)
  have e: "exponentOf x = - int k"
    using False by (simp add: exponentOf_def k_def n_def y_def)
  have "(2::rat) ^ (k - 1) \<le> of_nat n"
    using bitLength_lower [OF n(1)] unfolding k_def [symmetric]
    by (metis of_nat_le_iff of_nat_numeral of_nat_power)
  also have "\<dots> < y" unfolding n(2) by linarith
  finally have low: "(2::rat) ^ (k - 1) < y" .
  have "n + 1 \<le> 2 ^ k" using bitLength_upper [of n] by (simp add: k_def)
  then have "(of_nat (n + 1) :: rat) \<le> 2 ^ k"
    by (metis of_nat_le_iff of_nat_numeral of_nat_power)
  moreover have "y \<le> of_nat (n + 1)" using n(2) by simp
  ultimately have up: "y \<le> 2 ^ k" by linarith
  have "1 / 2 ^ k \<le> x"
    using up x(1) y unfolding y_def by (simp add: field_simps)
  moreover have "x < 1 / 2 ^ (k - 1)"
    using low x(1) unfolding y_def by (simp add: field_simps)
  moreover have "(2::rat) powi (- int k) = 1 / 2 ^ k"
    by (simp add: power_int_minus field_simps)
  moreover have "(2::rat) powi (- int k + 1) = 1 / 2 ^ (k - 1)"
  proof -
    have "- int k + 1 = - int (k - 1)" using k by simp
    moreover have "(2::rat) powi (- int (k - 1)) = 1 / 2 ^ (k - 1)"
      by (simp only: power_int_minus power_int_of_nat inverse_eq_divide)
    ultimately show ?thesis by (simp only:)
  qed
  ultimately show ?thesis unfolding e by simp
qed

lemma roundHalfEven_error: "\<bar>of_int (roundHalfEven s) - s\<bar> \<le> 1 / 2"
proof -
  define r where "r = s - of_int \<lfloor>s\<rfloor>"
  have r: "0 \<le> r" "r < 1" unfolding r_def by linarith+
  have s: "s = of_int \<lfloor>s\<rfloor> + r" by (simp add: r_def)
  have d: "of_int \<lfloor>s\<rfloor> - s = - r" and u: "of_int (\<lfloor>s\<rfloor> + 1) - s = 1 - r"
    by (simp_all add: r_def)
  have down: "\<bar>of_int \<lfloor>s\<rfloor> - s\<bar> \<le> 1 / 2" if "r \<le> 1 / 2"
    unfolding d using that r by linarith
  have up: "\<bar>of_int (\<lfloor>s\<rfloor> + 1) - s\<bar> \<le> 1 / 2" if "1 / 2 \<le> r"
    unfolding u using that r by linarith
  show ?thesis
    unfolding roundHalfEven_def Let_def r_def [symmetric]
    using down up by (cases "r < 1 / 2"; cases "1 / 2 < r") auto
qed

lemma roundToDouble_error:
  assumes "2 powi (- 1022) \<le> x"
  shows "\<bar>roundToDouble x - x\<bar> \<le> x / 2 ^ 53"
proof -
  have pos: "0 < x"
    using assms zero_less_power_int [of "2::rat" "- 1022"] by simp
  define e where "e = exponentOf x"
  from exponentOf_bounds [OF pos] have b: "2 powi e \<le> x" "x < 2 powi (e + 1)"
    by (simp_all add: e_def)
  from assms b(2) have "(2::rat) powi (- 1022) < 2 powi (e + 1)" by simp
  then have "- 1022 < e + 1"
    using power_int_increasing [of "e + 1" "- 1022" "2::rat"] by (cases "e + 1 \<le> - 1022") auto
  then have max: "max e (- 1022) = e" by simp
  define q where "q = e - 52"
  define m where "m = roundHalfEven (x / 2 powi q)"
  have pq: "(0::rat) < 2 powi q" by (simp add: zero_less_power_int)
  have r: "roundToDouble x = of_int m * 2 powi q"
    using pos by (simp add: roundToDouble_def e_def [symmetric] max q_def [symmetric] m_def Let_def)
  have "\<bar>of_int m * 2 powi q - x\<bar> = \<bar>of_int m - x / 2 powi q\<bar> * 2 powi q"
  proof -
    have "of_int m * 2 powi q - x = (of_int m - x / 2 powi q) * 2 powi q"
      using pq by (simp add: field_simps)
    then show ?thesis using pq by (simp add: abs_mult)
  qed
  also have "\<dots> \<le> (1 / 2) * 2 powi q"
    using roundHalfEven_error [of "x / 2 powi q"] pq unfolding m_def
    by (intro mult_right_mono) simp_all
  also have "\<dots> = 2 powi e / 2 ^ 53"
  proof -
    have "(2::rat) powi q = 2 powi e * 2 powi (- 52)"
      unfolding q_def by (simp add: power_int_diff power_int_minus field_simps)
    then show ?thesis by (simp add: power_int_minus)
  qed
  also have "\<dots> \<le> x / 2 ^ 53"
    using b(1) by (simp add: divide_right_mono)
  finally show ?thesis unfolding r .
qed

lemma roundToDouble_zero: "roundToDouble 0 = 0"
  by (simp add: roundToDouble_def)

lemma percentageOf_error:
  assumes "0 < t" "t < 2 ^ 53"
  shows "\<bar>percentageOf l t - 100 * (of_nat l / of_nat t)\<bar>
           \<le> (100 * (of_nat l / of_nat t)) * (1 / 2 ^ 52 + 1 / 2 ^ 106)"
proof (cases "l = 0")
  case True
  then show ?thesis by (simp add: percentageOf_def roundToDouble_zero)
next
  case False
  define x :: rat where "x = of_nat l / of_nat t"
  define u :: rat where "u = 1 / 2 ^ 53"
  have u: "0 < u" "u < 1 / 2" by (simp_all add: u_def)
  have "(of_nat t :: rat) < of_nat (2 ^ 53)"
    using assms(2) by (simp only: of_nat_less_iff)
  then have tr: "(of_nat t :: rat) < 2 ^ 53" by simp
  have tpos: "(0::rat) < of_nat t" using assms(1) by simp
  have "u < 1 / (of_nat t :: rat)"
    unfolding u_def using tr tpos by (simp add: field_simps)
  also have "1 / (of_nat t :: rat) \<le> x"
    unfolding x_def using False tpos by (simp add: divide_right_mono)
  finally have xl: "u < x" .
  have xpos: "0 < x" using xl u(1) by linarith
  have "(2::rat) powi (- 1022) \<le> 2 powi (- 53)"
    by (rule power_int_increasing) simp_all
  also have "(2::rat) powi (- 53) = u"
    by (simp add: u_def power_int_minus inverse_eq_divide)
  finally have small: "(2::rat) powi (- 1022) \<le> u" .
  define y where "y = roundToDouble x"
  have "2 powi (- 1022) \<le> x" using small xl by linarith
  from roundToDouble_error [OF this] have ey: "\<bar>y - x\<bar> \<le> x * u"
    by (simp add: y_def u_def)
  have ylow: "x - x * u \<le> y" and yup: "y \<le> x + x * u"
    using ey by linarith+
  have xu: "x * u \<le> x * (1 / 2)" using xpos u(2) by (intro mult_left_mono) simp_all
  have zl: "x \<le> y * 100" using ylow xu xpos by linarith
  then have "2 powi (- 1022) \<le> y * 100" using small xl by linarith
  from roundToDouble_error [OF this]
  have ez: "\<bar>roundToDouble (y * 100) - y * 100\<bar> \<le> y * 100 * u"
    by (simp add: u_def)
  have "y * 100 * u \<le> (x + x * u) * 100 * u"
    using yup u(1) by (intro mult_right_mono) simp_all
  with ez ey have "\<bar>roundToDouble (y * 100) - 100 * x\<bar> \<le> (x + x * u) * 100 * u + 100 * (x * u)"
    by linarith
  also have "(x + x * u) * 100 * u + 100 * (x * u) = (100 * x) * (2 * u + u * u)"
    by (simp add: algebra_simps)
  finally have main: "\<bar>roundToDouble (y * 100) - 100 * x\<bar> \<le> (100 * x) * (2 * u + u * u)" .
  have c: "2 * u + u * u = 1 / 2 ^ 52 + 1 / 2 ^ 106"
    by (simp add: u_def)
  show ?thesis
    using main unfolding c percentageOf_def x_def y_def .
qed

lemma percentageOf_zero: "percentageOf 0 t = 0"
  by (simp add: percentageOf_def roundToDouble_zero)

lemma sum_percentageOf_error:
  assumes "0 < t" "t < 2 ^ 53"
  shows "\<bar>sum_list (map (\<lambda>p. percentageOf (lines (snd p)) t) al)
            - 100 * (of_nat (sum_list (map (\<lambda>p. lines (snd p)) al)) / of_nat t)\<bar>
           \<le> (100 * (of_nat (sum_list (map (\<lambda>p. lines (snd p)) al)) / of_nat t))
                * (1 / 2 ^ 52 + 1 / 2 ^ 106)"
proof (induction al)
  case Nil
  show ?case by simp
next
  case (Cons p ps)
  let ?c = "1 / 2 ^ 52 + 1 / 2 ^ 106 :: rat"
  let ?l = "of_nat (lines (snd p)) / of_nat t :: rat"
  let ?L = "of_nat (sum_list (map (\<lambda>p. lines (snd p)) ps)) / of_nat t :: rat"
  let ?S = "sum_list (map (\<lambda>p. percentageOf (lines (snd p)) t) ps)"
  have split: "(of_nat (sum_list (map (\<lambda>p. lines (snd p)) (p # ps))) / of_nat t :: rat) = ?l + ?L"
    by (simp add: add_divide_distrib)
  have one: "\<bar>percentageOf (lines (snd p)) t - 100 * ?l\<bar> \<le> (100 * ?l) * ?c"
    by (rule percentageOf_error [OF assms])
  have rest: "\<bar>?S - 100 * ?L\<bar> \<le> (100 * ?L) * ?c"
    by (rule Cons.IH)
  have "(percentageOf (lines (snd p)) t + ?S) - 100 * (?l + ?L)
          = (percentageOf (lines (snd p)) t - 100 * ?l) + (?S - 100 * ?L)"
    by (simp add: algebra_simps)
  then have "\<bar>(percentageOf (lines (snd p)) t + ?S) - 100 * (?l + ?L)\<bar>
          \<le> \<bar>percentageOf (lines (snd p)) t - 100 * ?l\<bar> + \<bar>?S - 100 * ?L\<bar>"
    by (simp only: abs_triangle_ineq)
  also have "\<dots> \<le> (100 * ?l) * ?c + (100 * ?L) * ?c"
    using one rest by linarith
  also have "\<dots> = (100 * (?l + ?L)) * ?c"
    by (simp only: distrib_left distrib_right)
  finally show ?case
    unfolding split by simp
qed

lemma calculatePercentages_positive:
  "0 < totalLines stats \<Longrightarrow>
   map (\<lambda>p. percentage (snd p)) (languageBreakdown (calculatePercentages stats))
     = map (\<lambda>p. percentageOf (lines (snd p)) (totalLines stats)) (languageBreakdown stats)"
  by (simp add: calculatePercentages_def split_def)

lemma calculatePercentages_lines:
  "map (\<lambda>p. lines (snd p)) (languageBreakdown (calculatePercentages stats))
     = map (\<lambda>p. lines (snd p)) (languageBreakdown stats)"
  by (simp add: calculatePercentages_def split_def)

lemma calculatePercentages_stored:
  "0 < totalLines stats \<Longrightarrow>
   list_all (\<lambda>p. percentage (snd p) = percentageOf (lines (snd p)) (totalLines stats))
     (languageBreakdown (calculatePercentages stats))"
  by (simp add: calculatePercentages_def split_def list_all_iff)

lemma calculatePercentages_zero:
  "totalLines stats = 0 \<Longrightarrow> calculatePercentages stats = stats"
  by (simp add: calculatePercentages_def split_def)

lemma accumulate_percentage_zero:
  "list_all (\<lambda>p. percentage (snd p) = 0) (languageBreakdown stats) \<Longrightarrow>
   list_all (\<lambda>p. percentage (snd p) = 0) (languageBreakdown (accumulate stats fs l))"
proof -
  have upd: "\<And>al v. list_all (\<lambda>p. percentage (snd p) = 0) al \<Longrightarrow> percentage v = 0 \<Longrightarrow>
      list_all (\<lambda>p. percentage (snd p) = 0) (AList.update l v al)"
    subgoal for al v by (induction al) auto
    done
  assume a: "list_all (\<lambda>p. percentage (snd p) = 0) (languageBreakdown stats)"
  have "percentage (entryOf (languageBreakdown stats) l) = 0"
    using a by (auto simp: entryOf_def emptyEntry_def list_all_iff split: option.splits dest!: map_of_SomeD)
  with a show ?thesis by (simp add: accumulate_def upd)
qed

lemma foldl_analyzeStep_percentage_zero:
  "list_all (\<lambda>p. percentage (snd p) = 0) (languageBreakdown (fst st)) \<Longrightarrow>
   list_all (\<lambda>p. percentage (snd p) = 0) (languageBreakdown (fst (foldl (analyzeStep w) st fs)))"
proof (induction fs arbitrary: st)
  case Nil
  then show ?case by simp
next
  case (Cons f fs)
  obtain stats issued where st: "st = (stats, issued)" by (cases st)
  obtain fileStats reqs where fc: "analyzeFileContent w f = (fileStats, reqs)"
    by (cases "analyzeFileContent w f")
  have step: "fst (analyzeStep w (stats, issued) f)
      = accumulate stats fileStats (getLanguageFromFile (path f))"
    by (simp add: analyzeStep_def fc)
  from Cons.prems st have "list_all (\<lambda>p. percentage (snd p) = 0) (languageBreakdown (fst (analyzeStep w st f)))"
    by (simp add: step accumulate_percentage_zero)
  from Cons.IH [OF this] show ?case by simp
qed

lemma analyzeSelected_percentages:
  "sum_list (map (\<lambda>p. lines (snd p)) (languageBreakdown (fst (analyzeSelected w repo sel))))
     = totalLines (fst (analyzeSelected w repo sel))
   \<and> (0 < totalLines (fst (analyzeSelected w repo sel))
        \<and> totalLines (fst (analyzeSelected w repo sel)) < 2 ^ 53 \<longrightarrow>
      \<bar>sum_list (map (\<lambda>p. percentage (snd p)) (languageBreakdown (fst (analyzeSelected w repo sel))))
         - 100\<bar> \<le> 100 * (1 / 2 ^ 52 + 1 / 2 ^ 106))
   \<and> (0 < totalLines (fst (analyzeSelected w repo sel)) \<longrightarrow>
      list_all (\<lambda>p. percentage (snd p)
                  = percentageOf (lines (snd p)) (totalLines (fst (analyzeSelected w repo sel))))
        (languageBreakdown (fst (analyzeSelected w repo sel))))
   \<and> (totalLines (fst (analyzeSelected w repo sel)) = 0 \<longrightarrow>
      list_all (\<lambda>p. percentage (snd p) = 0) (languageBreakdown (fst (analyzeSelected w repo sel))))"
proof -
  let ?st = "((initialStats repo)\<lparr>fileCount := length sel\<rparr>, [] :: request list)"
  obtain stats issued where r: "foldl (analyzeStep w) ?st sel = (stats, issued)"
    by (cases "foldl (analyzeStep w) ?st sel")
  have res: "fst (analyzeSelected w repo sel) = calculatePercentages stats"
    by (simp add: analyzeSelected_def r)
  have tl: "totalLines (calculatePercentages stats) = totalLines stats"
    by (simp add: calculatePercentages_def)
  have "sum_list (map (\<lambda>p. lines (snd p)) (languageBreakdown (fst ?st))) = totalLines (fst ?st)"
    by (simp add: initialStats_def)
  from foldl_analyzeStep_sum_lines [OF this, of w sel] r
  have sum: "sum_list (map (\<lambda>p. lines (snd p)) (languageBreakdown stats)) = totalLines stats"
    by simp
  have "list_all (\<lambda>p. percentage (snd p) = 0) (languageBreakdown (fst ?st))"
    by (simp add: initialStats_def)
  from foldl_analyzeStep_percentage_zero [OF this, of w sel] r
  have zero: "list_all (\<lambda>p. percentage (snd p) = 0) (languageBreakdown stats)"
    by simp
  have lines_sum: "sum_list (map (\<lambda>p. lines (snd p)) (languageBreakdown (calculatePercentages stats)))
      = totalLines stats"
    by (simp only: calculatePercentages_lines sum)
  have near: "\<bar>sum_list (map (\<lambda>p. percentage (snd p)) (languageBreakdown (calculatePercentages stats)))
      - 100\<bar> \<le> 100 * (1 / 2 ^ 52 + 1 / 2 ^ 106)"
    if "0 < totalLines stats" "totalLines stats < 2 ^ 53"
  proof -
    have whole: "(of_nat (totalLines stats) / of_nat (totalLines stats) :: rat) = 1"
      using that(1) by simp
    from sum_percentageOf_error [OF that, of "languageBreakdown stats"]
    show ?thesis
      unfolding calculatePercentages_positive [OF that(1)] sum whole by simp
  qed
  show ?thesis
    unfolding res tl
    using lines_sum near zero calculatePercentages_stored [of stats]
    by (auto simp: calculatePercentages_zero tl)
qed

lemma percentageOf_whole: "percentageOf 4 4 = 100"
  by code_simp

lemma percentageOf_third: "percentageOf 1 3 = 2345624805922133 / 70368744177664"
  by code_simp

lemma percentageOf_third_unary:
  "percentageOf (Suc 0) (Suc (Suc (Suc 0))) = 2345624805922133 / 70368744177664"
  using percentageOf_third by (simp add: numeral_3_eq_3)

lemma one_file_stats:
  "fst (analyzeRepositoryCode oneFileWorld exampleRepo)
    = \<lparr>totalLines = 4, codeLines = 1, commentLines = 1, blankLines = 2,
       repository = ''demo'', branch = ''main'', fileCount = 1,
       languageBreakdown = [(''JavaScript'', \<lparr>lines = 4, files = 1, percentage = 100\<rparr>)]\<rparr>"
  by (simp add: analyzeRepositoryCode_def getRepositoryFiles_def oneFileWorld_def unreachableWorld_def
      exampleRepo_def smallFile_def isCodeFile_def includeExtensions_def extensionOf_def
      toLowerCase_def toLowerCase_char_def analyzeSelected_def initialStats_def analyzeStep_def
      analyzeFileContent_def removeNewlines_def sampleAtob_def sample_stats accumulate_def
      entryOf_def emptyEntry_def calculatePercentages_def getLanguageFromFile_def languageMap_def
      percentageOf_whole)

lemma three_language_stats:
  "fst (analyzeRepositoryCode threeLanguageWorld exampleRepo)
    = \<lparr>totalLines = 3, codeLines = 0, commentLines = 0, blankLines = 3,
       repository = ''demo'', branch = ''main'', fileCount = 3,
       languageBreakdown =
         [(''JavaScript'', \<lparr>lines = 1, files = 1, percentage = 2345624805922133 / 70368744177664\<rparr>),
          (''Python'', \<lparr>lines = 1, files = 1, percentage = 2345624805922133 / 70368744177664\<rparr>),
          (''Go'', \<lparr>lines = 1, files = 1, percentage = 2345624805922133 / 70368744177664\<rparr>)]\<rparr>"
  by (simp add: analyzeRepositoryCode_def getRepositoryFiles_def threeLanguageWorld_def
      unreachableWorld_def exampleRepo_def isCodeFile_def includeExtensions_def extensionOf_def
      toLowerCase_def toLowerCase_char_def analyzeSelected_def initialStats_def analyzeStep_def
      analyzeFileContent_def removeNewlines_def sampleAtob_def analyzeTextContent_empty
      accumulate_def entryOf_def emptyEntry_def calculatePercentages_def getLanguageFromFile_def
      languageMap_def percentageOf_third_unary)

lemma oversized_only_stats:
  "fst (analyzeRepositoryCode oversizedOnlyWorld exampleRepo)
    = \<lparr>totalLines = 0, codeLines = 0, commentLines = 0, blankLines = 0,
       repository = ''demo'', branch = ''main'', fileCount = 1,
       languageBreakdown = [(''JavaScript'', \<lparr>lines = 0, files = 1, percentage = 0\<rparr>)]\<rparr>"
  by (simp add: analyzeRepositoryCode_def getRepositoryFiles_def oversizedOnlyWorld_def
      unreachableWorld_def exampleRepo_def oversizedFile_def isCodeFile_def includeExtensions_def
      extensionOf_def toLowerCase_def toLowerCase_char_def analyzeSelected_def initialStats_def
      analyzeStep_def analyzeFileContent_def zeroStats_def accumulate_def entryOf_def
      emptyEntry_def calculatePercentages_def getLanguageFromFile_def languageMap_def)

text \<open>
  Claim C3, as stated: whenever \<^verbatim>\<open>totalLines\<close> is positive the percentages of all languages
  add up to exactly 100. They do not: a percentage is the double
  \<^verbatim>\<open>(lines / totalLines) * 100\<close>, rounded twice. For three files of one line each in three
  languages every percentage is the double \<^verbatim>\<open>33.33333333333333\<close> and the three add up to
  \<^verbatim>\<open>99.99999999999999\<close> (exactly 7036874417766399 / 70368744177664).
\<close>

theorem three_thirds_are_not_100:
  "0 < totalLines (fst (analyzeRepositoryCode threeLanguageWorld exampleRepo))
   \<and> sum_list (map (\<lambda>p. percentage (snd p))
        (languageBreakdown (fst (analyzeRepositoryCode threeLanguageWorld exampleRepo))))
      = 7036874417766399 / 70368744177664
   \<and> sum_list (map (\<lambda>p. percentage (snd p))
        (languageBreakdown (fst (analyzeRepositoryCode threeLanguageWorld exampleRepo))))
      \<noteq> 100"
  by (simp add: three_language_stats)

text \<open>
  Claim C3, amended. For the statistics \<^verbatim>\<open>analyzeRepositoryCode\<close> returns, the lines of all
  languages add up to \<^verbatim>\<open>totalLines\<close>. When \<^verbatim>\<open>totalLines\<close> is positive every percentage is
  the double \<^verbatim>\<open>(lines / totalLines) * 100\<close>, and when it is also below \<open>2 ^ 53\<close> (where the
  counters are exact) the percentages add up to 100 within floating-point tolerance: their
  sum differs from 100 by at most \<open>100 * (2 ^ -52 + 2 ^ -106)\<close>. When \<^verbatim>\<open>totalLines\<close> is zero
  every language's percentage is exactly zero.
\<close>

theorem percentages_add_up_within_tolerance:
  "sum_list (map (\<lambda>p. lines (snd p)) (languageBreakdown (fst (analyzeRepositoryCode w repo))))
     = totalLines (fst (analyzeRepositoryCode w repo))
   \<and> (0 < totalLines (fst (analyzeRepositoryCode w repo))
        \<and> totalLines (fst (analyzeRepositoryCode w repo)) < 2 ^ 53 \<longrightarrow>
      \<bar>sum_list (map (\<lambda>p. percentage (snd p)) (languageBreakdown (fst (analyzeRepositoryCode w repo))))
         - 100\<bar> \<le> 100 * (1 / 2 ^ 52 + 1 / 2 ^ 106))
   \<and> (0 < totalLines (fst (analyzeRepositoryCode w repo)) \<longrightarrow>
      list_all (\<lambda>p. percentage (snd p)
                  = percentageOf (lines (snd p)) (totalLines (fst (analyzeRepositoryCode w repo))))
        (languageBreakdown (fst (analyzeRepositoryCode w repo))))
   \<and> (totalLines (fst (analyzeRepositoryCode w repo)) = 0 \<longrightarrow>
      list_all (\<lambda>p. percentage (snd p) = 0) (languageBreakdown (fst (analyzeRepositoryCode w repo))))"
  using analyzeSelected_percentages [of w repo "fst (getRepositoryFiles w repo)"]
  unfolding analyzeRepositoryCode_fst .

theorem percentages_add_up_within_tolerance_witness:
  "(0 < totalLines (fst (analyzeRepositoryCode threeLanguageWorld exampleRepo))
    \<and> totalLines (fst (analyzeRepositoryCode threeLanguageWorld exampleRepo)) < 2 ^ 53
    \<and> length (languageBreakdown (fst (analyzeRepositoryCode threeLanguageWorld exampleRepo))) = 3
    \<and> \<bar>sum_list (map (\<lambda>p. percentage (snd p))
          (languageBreakdown (fst (analyzeRepositoryCode threeLanguageWorld exampleRepo)))) - 100\<bar>
        \<le> 100 * (1 / 2 ^ 52 + 1 / 2 ^ 106))
   \<and> (totalLines (fst (analyzeRepositoryCode oversizedOnlyWorld exampleRepo)) = 0
    \<and> length (languageBreakdown (fst (analyzeRepositoryCode oversizedOnlyWorld exampleRepo))) = 1
    \<and> list_all (\<lambda>p. percentage (snd p) = 0)
         (languageBreakdown (fst (analyzeRepositoryCode oversizedOnlyWorld exampleRepo))))"
proof -
  have three: "0 < totalLines (fst (analyzeRepositoryCode threeLanguageWorld exampleRepo))
      \<and> totalLines (fst (analyzeRepositoryCode threeLanguageWorld exampleRepo)) < 2 ^ 53"
    "length (languageBreakdown (fst (analyzeRepositoryCode threeLanguageWorld exampleRepo))) = 3"
    by (simp_all add: three_language_stats)
  have none: "totalLines (fst (analyzeRepositoryCode oversizedOnlyWorld exampleRepo)) = 0"
    "length (languageBreakdown (fst (analyzeRepositoryCode oversizedOnlyWorld exampleRepo))) = 1"
    by (simp_all add: oversized_only_stats)
  from percentages_add_up_within_tolerance [of threeLanguageWorld exampleRepo]
    percentages_add_up_within_tolerance [of oversizedOnlyWorld exampleRepo] three none
  show ?thesis by blast
qed

lemma foldl_analyzeStep_fileCount:
  "foldl (analyzeStep w) (stats\<lparr>fileCount := c\<rparr>, issued) fs
     = (case foldl (analyzeStep w) (stats, issued) fs of (s, t) \<Rightarrow> (s\<lparr>fileCount := c\<rparr>, t))"
proof (induction fs arbitrary: stats issued)
  case Nil
  show ?case by simp
next
  case (Cons f fs)
  obtain fileStats reqs where fc: "analyzeFileContent w f = (fileStats, reqs)"
    by (cases "analyzeFileContent w f")
  have "analyzeStep w (stats\<lparr>fileCount := c\<rparr>, issued) f
      = ((accumulate stats fileStats (getLanguageFromFile (path f)))\<lparr>fileCount := c\<rparr>, issued @ reqs)"
    by (simp add: analyzeStep_def fc accumulate_def)
  moreover have "analyzeStep w (stats, issued) f
      = (accumulate stats fileStats (getLanguageFromFile (path f)), issued @ reqs)"
    by (simp add: analyzeStep_def fc)
  ultimately show ?case using Cons.IH by simp
qed

text \<open>Two runs over the same files stay related when the first has counted one more file for a language.\<close>

lemma accumulate_bumpFiles:
  assumes "totalLines s1 = totalLines s0" "codeLines s1 = codeLines s0"
    "commentLines s1 = commentLines s0" "blankLines s1 = blankLines s0"
    "map_of (languageBreakdown s1) = bumpFiles l (map_of (languageBreakdown s0))"
  shows "totalLines (accumulate s1 fs g) = totalLines (accumulate s0 fs g)
    \<and> codeLines (accumulate s1 fs g) = codeLines (accumulate s0 fs g)
    \<and> commentLines (accumulate s1 fs g) = commentLines (accumulate s0 fs g)
    \<and> blankLines (accumulate s1 fs g) = blankLines (accumulate s0 fs g)
    \<and> map_of (languageBreakdown (accumulate s1 fs g))
        = bumpFiles l (map_of (languageBreakdown (accumulate s0 fs g)))"
  using assms
  by (auto simp: accumulate_def update_conv' entryOf_def bumpFiles_def fun_eq_iff
           split: option.splits)

lemma foldl_analyzeStep_bumpFiles:
  assumes "totalLines s1 = totalLines s0" "codeLines s1 = codeLines s0"
    "commentLines s1 = commentLines s0" "blankLines s1 = blankLines s0"
    "map_of (languageBreakdown s1) = bumpFiles l (map_of (languageBreakdown s0))"
  shows "totalLines (fst (foldl (analyzeStep w) (s1, t) fs)) = totalLines (fst (foldl (analyzeStep w) (s0, t) fs))
    \<and> codeLines (fst (foldl (analyzeStep w) (s1, t) fs)) = codeLines (fst (foldl (analyzeStep w) (s0, t) fs))
    \<and> commentLines (fst (foldl (analyzeStep w) (s1, t) fs)) = commentLines (fst (foldl (analyzeStep w) (s0, t) fs))
    \<and> blankLines (fst (foldl (analyzeStep w) (s1, t) fs)) = blankLines (fst (foldl (analyzeStep w) (s0, t) fs))
    \<and> map_of (languageBreakdown (fst (foldl (analyzeStep w) (s1, t) fs)))
        = bumpFiles l (map_of (languageBreakdown (fst (foldl (analyzeStep w) (s0, t) fs))))
    \<and> snd (foldl (analyzeStep w) (s1, t) fs) = snd (foldl (analyzeStep w) (s0, t) fs)"
  using assms
proof (induction fs arbitrary: s1 s0 t)
  case Nil
  then show ?case by simp
next
  case (Cons f fs)
  obtain fileStats reqs where fc: "analyzeFileContent w f = (fileStats, reqs)"
    by (cases "analyzeFileContent w f")
  let ?g = "getLanguageFromFile (path f)"
  have s1: "analyzeStep w (s1, t) f = (accumulate s1 fileStats ?g, t @ reqs)"
    and s0: "analyzeStep w (s0, t) f = (accumulate s0 fileStats ?g, t @ reqs)"
    by (simp_all add: analyzeStep_def fc)
  from accumulate_bumpFiles [OF Cons.prems, of fileStats ?g]
  have rel: "totalLines (accumulate s1 fileStats ?g) = totalLines (accumulate s0 fileStats ?g)"
    "codeLines (accumulate s1 fileStats ?g) = codeLines (accumulate s0 fileStats ?g)"
    "commentLines (accumulate s1 fileStats ?g) = commentLines (accumulate s0 fileStats ?g)"
    "blankLines (accumulate s1 fileStats ?g) = blankLines (accumulate s0 fileStats ?g)"
    "map_of (languageBreakdown (accumulate s1 fileStats ?g))
        = bumpFiles l (map_of (languageBreakdown (accumulate s0 fileStats ?g)))"
    by simp_all
  from Cons.IH [OF rel, of "t @ reqs"] show ?case
    by (simp add: s1 s0)
qed

lemma foldl_analyzeStep_append:
  "foldl (analyzeStep w) st (pre @ f # post)
     = foldl (analyzeStep w) (analyzeStep w (foldl (analyzeStep w) st pre) f) post"
  by simp

lemma analyzeStep_oversized:
  "entry_size f > 100000 \<Longrightarrow>
   analyzeStep w (s, t) f = (accumulate s zeroStats (getLanguageFromFile (path f)), t)"
  by (simp add: analyzeStep_def analyzeFileContent_def)

lemma accumulate_zeroStats:
  "totalLines (accumulate s zeroStats l) = totalLines s
   \<and> codeLines (accumulate s zeroStats l) = codeLines s
   \<and> commentLines (accumulate s zeroStats l) = commentLines s
   \<and> blankLines (accumulate s zeroStats l) = blankLines s
   \<and> map_of (languageBreakdown (accumulate s zeroStats l)) = bumpFiles l (map_of (languageBreakdown s))"
  by (auto simp: accumulate_def zeroStats_def update_conv' entryOf_def bumpFiles_def fun_eq_iff
           split: option.splits)

lemma map_of_map_snd:
  "map_of (map (\<lambda>p. (fst p, g (snd p))) al) l = map_option g (map_of al l)"
  by (induction al) auto

lemma map_of_calculatePercentages:
  "map_of (languageBreakdown (calculatePercentages s)) l
     = map_option (\<lambda>e. if totalLines s > 0
                        then e\<lparr>percentage := percentageOf (lines e) (totalLines s)\<rparr>
                        else e)
         (map_of (languageBreakdown s) l)"
  by (simp add: calculatePercentages_def split_def
        map_of_map_snd [of "\<lambda>e. if totalLines s > 0
                        then e\<lparr>percentage := percentageOf (lines e) (totalLines s)\<rparr>
                        else e"])

text \<open>
  Claim C4, as stated: the statistics with a file of more than 100,000 bytes among the
  selected files equal the statistics without it, file count and breakdown included. They do
  not: the file is counted in \<^verbatim>\<open>fileCount\<close> and in the \<^verbatim>\<open>files\<close> of its language.
\<close>

theorem oversized_file_changes_statistics:
  "entry_size oversizedFile > 100000
   \<and> fst (analyzeSelected unreachableWorld exampleRepo ([] @ oversizedFile # []))
       \<noteq> fst (analyzeSelected unreachableWorld exampleRepo ([] @ []))"
  by (simp add: analyzeSelected_def initialStats_def analyzeStep_def analyzeFileContent_def
        oversizedFile_def accumulate_def calculatePercentages_def zeroStats_def)

text \<open>
  Claim C4, amended: a selected file of more than 100,000 bytes is never fetched and leaves
  the four line counts and every language's lines and percentage as they are without it,
  whatever its content; the file count is one higher, and the breakdown is the one without
  the file with one more file counted for the file's language (an entry of zero lines if
  the language had none).
\<close>

theorem oversized_file_only_counts_as_a_file:
  assumes "entry_size f > 100000"
  shows "totalLines (fst (analyzeSelected w repo (pre @ f # post)))
           = totalLines (fst (analyzeSelected w repo (pre @ post)))
    \<and> codeLines (fst (analyzeSelected w repo (pre @ f # post)))
           = codeLines (fst (analyzeSelected w repo (pre @ post)))
    \<and> commentLines (fst (analyzeSelected w repo (pre @ f # post)))
           = commentLines (fst (analyzeSelected w repo (pre @ post)))
    \<and> blankLines (fst (analyzeSelected w repo (pre @ f # post)))
           = blankLines (fst (analyzeSelected w repo (pre @ post)))
    \<and> fileCount (fst (analyzeSelected w repo (pre @ f # post)))
           = fileCount (fst (analyzeSelected w repo (pre @ post))) + 1
    \<and> map_of (languageBreakdown (fst (analyzeSelected w repo (pre @ f # post))))
           = bumpFiles (getLanguageFromFile (path f))
               (map_of (languageBreakdown (fst (analyzeSelected w repo (pre @ post)))))
    \<and> snd (analyzeSelected w repo (pre @ f # post)) = snd (analyzeSelected w repo (pre @ post))"
proof -
  let ?l = "getLanguageFromFile (path f)"
  obtain s t where pre: "foldl (analyzeStep w) (initialStats repo, []) pre = (s, t)"
    by (cases "foldl (analyzeStep w) (initialStats repo, []) pre")
  obtain s1 t1 where r1: "foldl (analyzeStep w) (accumulate s zeroStats ?l, t) post = (s1, t1)"
    by (cases "foldl (analyzeStep w) (accumulate s zeroStats ?l, t) post")
  obtain s0 t0 where r0: "foldl (analyzeStep w) (s, t) post = (s0, t0)"
    by (cases "foldl (analyzeStep w) (s, t) post")
  from accumulate_zeroStats [of s ?l]
  have start: "totalLines (accumulate s zeroStats ?l) = totalLines s"
    "codeLines (accumulate s zeroStats ?l) = codeLines s"
    "commentLines (accumulate s zeroStats ?l) = commentLines s"
    "blankLines (accumulate s zeroStats ?l) = blankLines s"
    "map_of (languageBreakdown (accumulate s zeroStats ?l)) = bumpFiles ?l (map_of (languageBreakdown s))"
    by simp_all
  from foldl_analyzeStep_bumpFiles [OF start, of w t post] r1 r0
  have rel: "totalLines s1 = totalLines s0" "codeLines s1 = codeLines s0"
    "commentLines s1 = commentLines s0" "blankLines s1 = blankLines s0"
    "map_of (languageBreakdown s1) = bumpFiles ?l (map_of (languageBreakdown s0))" "t1 = t0"
    by simp_all
  have unfold: "analyzeSelected w repo xs
      = (case foldl (analyzeStep w) (initialStats repo, []) xs of
           (s, t) \<Rightarrow> (calculatePercentages (s\<lparr>fileCount := length xs\<rparr>), t))" for xs
    by (simp only: analyzeSelected_def foldl_analyzeStep_fileCount) (simp split: prod.splits)
  have "foldl (analyzeStep w) (initialStats repo, []) (pre @ f # post) = (s1, t1)"
    using assms by (simp add: pre analyzeStep_oversized r1)
  then have with_f: "analyzeSelected w repo (pre @ f # post)
      = (calculatePercentages (s1\<lparr>fileCount := Suc (length pre + length post)\<rparr>), t1)"
    by (simp add: unfold)
  have "foldl (analyzeStep w) (initialStats repo, []) (pre @ post) = (s0, t0)"
    by (simp add: pre r0)
  then have without_f: "analyzeSelected w repo (pre @ post)
      = (calculatePercentages (s0\<lparr>fileCount := length pre + length post\<rparr>), t0)"
    by (simp add: unfold)
  have counts: "totalLines (calculatePercentages x) = totalLines x"
    "codeLines (calculatePercentages x) = codeLines x"
    "commentLines (calculatePercentages x) = commentLines x"
    "blankLines (calculatePercentages x) = blankLines x"
    "fileCount (calculatePercentages x) = fileCount x" for x
    by (simp_all add: calculatePercentages_def)
  have tl_fc: "totalLines (x\<lparr>fileCount := c\<rparr>) = totalLines x" for x :: CodeStats and c
    by simp
  have fc: "languageBreakdown (calculatePercentages (x\<lparr>fileCount := c\<rparr>))
      = languageBreakdown (calculatePercentages x)" for x c
    unfolding calculatePercentages_def tl_fc by simp
  have "map_of (languageBreakdown (calculatePercentages s1)) x
      = bumpFiles ?l (map_of (languageBreakdown (calculatePercentages s0))) x" for x
    unfolding map_of_calculatePercentages bumpFiles_def rel(1) rel(5)
    by (simp add: bumpFiles_def emptyEntry_def percentageOf_zero split: option.splits)
  then have breakdown: "map_of (languageBreakdown (calculatePercentages (s1\<lparr>fileCount := c1\<rparr>)))
      = bumpFiles ?l (map_of (languageBreakdown (calculatePercentages (s0\<lparr>fileCount := c0\<rparr>))))"
    for c1 c0
    unfolding fc by (rule ext)
  show ?thesis
    unfolding with_f without_f using rel
    by (simp add: counts breakdown)
qed

theorem oversized_file_only_counts_as_a_file_witness:
  "entry_size oversizedFile > 100000
   \<and> totalLines (fst (analyzeSelected oneFileWorld exampleRepo ([smallFile] @ oversizedFile # [])))
       = totalLines (fst (analyzeSelected oneFileWorld exampleRepo ([smallFile] @ [])))
   \<and> fileCount (fst (analyzeSelected oneFileWorld exampleRepo ([smallFile] @ oversizedFile # [])))
       = fileCount (fst (analyzeSelected oneFileWorld exampleRepo ([smallFile] @ []))) + 1
   \<and> snd (analyzeSelected oneFileWorld exampleRepo ([smallFile] @ oversizedFile # []))
       = snd (analyzeSelected oneFileWorld exampleRepo ([smallFile] @ []))"
proof -
  have big: "entry_size oversizedFile > 100000"
    by (simp add: oversizedFile_def)
  from oversized_file_only_counts_as_a_file [OF big, of oneFileWorld exampleRepo "[smallFile]" "[]"] big
  show ?thesis by simp
qed


section \<open>Properties of the file selector\<close>

lemma split_js_no_separator: "sep \<notin> set s \<Longrightarrow> split_js sep s = [s]"
  by (induction s) auto

lemma last_split_js_append:
  "sep \<notin> set ext \<Longrightarrow> last (split_js sep (pre @ sep # ext)) = ext"
proof (induction pre)
  case Nil
  then show ?case by (simp add: split_js_no_separator)
next
  case (Cons c cs)
  then show ?case
    using length_split_js [of sep "cs @ sep # ext"]
    by (cases "split_js sep (cs @ sep # ext)") auto
qed

lemma getRepositoryFiles_first_hundred:
  "gitTree w (full_name repo) (default_branch repo) = Ok tree \<Longrightarrow>
   fst (getRepositoryFiles w repo) = take 100 (filter isCodeFile tree)"
  by (simp add: getRepositoryFiles_def)

lemma isCodeFile_with_extension:
  "CHR ''.'' \<notin> set ext \<Longrightarrow>
   isCodeFile \<lparr>path = pre @ CHR ''.'' # ext, entry_type = ty, entry_size = n, entry_url = u\<rparr>
     = (ty = ''blob'' \<and> ''.'' @ toLowerCase ext \<in> set includeExtensions)"
  by (simp add: isCodeFile_def extensionOf_def last_split_js_append)

lemma isCodeFile_without_dot:
  "CHR ''.'' \<notin> set p \<Longrightarrow>
   isCodeFile \<lparr>path = p, entry_type = ty, entry_size = n, entry_url = u\<rparr>
     = (ty = ''blob'' \<and> ''.'' @ toLowerCase p \<in> set includeExtensions)"
  by (simp add: isCodeFile_def extensionOf_def split_js_no_separator)

text \<open>
  Claim C5. \<^verbatim>\<open>getRepositoryFiles\<close> returns the first 100 blobs whose lowercase extension is in
  the allow-list, and no entry whose path has no dot. The code takes the piece after the
  last dot, which for a path without a dot is the whole path: a blob at the root named
  \<^verbatim>\<open>go\<close> has no dot in its path and is selected.
\<close>

theorem dotless_path_is_selected:
  "gitTree dotlessWorld (full_name exampleRepo) (default_branch exampleRepo) = Ok [dotlessFile]
   \<and> CHR ''.'' \<notin> set (path dotlessFile)
   \<and> fst (getRepositoryFiles dotlessWorld exampleRepo) = [dotlessFile]"
  by (simp add: getRepositoryFiles_def dotlessWorld_def unreachableWorld_def exampleRepo_def
        dotlessFile_def isCodeFile_def includeExtensions_def extensionOf_def toLowerCase_def
        toLowerCase_char_def)


section \<open>Properties of the paginated listings\<close>

lemma fullPage_Inr: "fullPage r \<Longrightarrow> \<exists>d. makeRequest r = Inr d \<and> length d = 100 \<and> pageItems r = d"
  by (auto simp: fullPage_def pageItems_def split: sum.splits)

lemma shortPage_Inr: "shortPage r \<Longrightarrow> \<exists>d. makeRequest r = Inr d \<and> length d \<noteq> 100 \<and> pageItems r = d"
  by (auto simp: shortPage_def pageItems_def split: sum.splits)

lemma getRepositories_loop_never_returns:
  assumes full: "\<forall>q\<ge>p. fullPage (orgRepos w organization 100 q)"
  shows "getRepositories_loop w organization p acc issued = None"
proof (rule ccontr)
  assume "getRepositories_loop w organization p acc issued \<noteq> None"
  then obtain r where "getRepositories_loop w organization p acc issued = Some r"
    by auto
  then have "\<exists>q\<ge>p. \<not> fullPage (orgRepos w organization 100 q)"
  proof (induction rule: getRepositories_loop.raw_induct[rotated 1, consumes 1])
    case (1 loop w organization page acc issued r)
    show ?case
    proof (cases "fullPage (orgRepos w organization 100 page)")
      case True
      then obtain d where d: "makeRequest (orgRepos w organization 100 page) = Inr d" "length d = 100"
        using fullPage_Inr by blast
      with 1(2) have "loop w organization (page + 1) (acc @ d) (issued @ [GetOrgRepos organization 100 page]) = Some r"
        by simp
      from 1(1) [OF this] obtain q where "page + 1 \<le> q" "\<not> fullPage (orgRepos w organization 100 q)"
        by auto
      then show ?thesis by (intro exI [of _ q]) simp
    next
      case False
      then show ?thesis by (intro exI [of _ page]) simp
    qed
  qed
  with full show False by blast
qed

lemma getRepositories_loop_stops:
  assumes "\<forall>q. p \<le> q \<and> q < k \<longrightarrow> fullPage (orgRepos w organization 100 q)"
    and "p \<le> k" and "shortPage (orgRepos w organization 100 k)"
  shows "getRepositories_loop w organization p acc issued
    = Some (Inr (acc @ concat (map (\<lambda>q. pageItems (orgRepos w organization 100 q)) [p..<Suc k])),
            issued @ map (GetOrgRepos organization 100) [p..<Suc k])"
  using assms
proof (induction "k - p" arbitrary: p acc issued)
  case 0
  then have "p = k" by simp
  from shortPage_Inr [OF 0(4)] obtain d where
    d: "makeRequest (orgRepos w organization 100 k) = Inr d" "length d \<noteq> 100"
       "pageItems (orgRepos w organization 100 k) = d"
    by blast
  show ?case
    unfolding \<open>p = k\<close>
    by (subst getRepositories_loop.simps) (simp add: d)
next
  case (Suc n)
  then have lt: "p < k" by simp
  with Suc.prems have "fullPage (orgRepos w organization 100 p)" by simp
  from fullPage_Inr [OF this] obtain d where
    d: "makeRequest (orgRepos w organization 100 p) = Inr d" "length d = 100"
       "pageItems (orgRepos w organization 100 p) = d"
    by blast
  have n: "n = k - Suc p" using Suc.hyps(2) by simp
  have rest: "\<forall>q. Suc p \<le> q \<and> q < k \<longrightarrow> fullPage (orgRepos w organization 100 q)"
    using Suc.prems(1) by simp
  have le: "Suc p \<le> k" using lt by simp
  have upt: "[p..<Suc k] = p # [Suc p..<Suc k]"
    using lt by (simp add: upt_conv_Cons)
  show ?case
    by (subst getRepositories_loop.simps)
       (simp add: d upt Suc.hyps(1) [OF n rest le Suc.prems(3)] del: upt_Suc)
qed

lemma getOrganizationMembers_loop_never_returns:
  assumes full: "\<forall>q\<ge>p. fullPage (orgMembers w organization 100 q)"
  shows "getOrganizationMembers_loop w organization p acc issued = None"
proof (rule ccontr)
  assume "getOrganizationMembers_loop w organization p acc issued \<noteq> None"
  then obtain r where "getOrganizationMembers_loop w organization p acc issued = Some r"
    by auto
  then have "\<exists>q\<ge>p. \<not> fullPage (orgMembers w organization 100 q)"
  proof (induction rule: getOrganizationMembers_loop.raw_induct[rotated 1, consumes 1])
    case (1 loop w organization page acc issued r)
    show ?case
    proof (cases "fullPage (orgMembers w organization 100 page)")
      case True
      then obtain d where d: "makeRequest (orgMembers w organization 100 page) = Inr d" "length d = 100"
        using fullPage_Inr by blast
      with 1(2) have "loop w organization (page + 1) (acc @ map (detailOf w) d)
          (issued @ GetOrgMembers organization 100 page # map (\<lambda>member. GetUserDetail (login member)) d)
           = Some r"
        by simp
      from 1(1) [OF this] obtain q where "page + 1 \<le> q" "\<not> fullPage (orgMembers w organization 100 q)"
        by auto
      then show ?thesis by (intro exI [of _ q]) simp
    next
      case False
      then show ?thesis by (intro exI [of _ page]) simp
    qed
  qed
  with full show False by blast
qed

lemma getOrganizationMembers_loop_stops:
  assumes "\<forall>q. p \<le> q \<and> q < k \<longrightarrow> fullPage (orgMembers w organization 100 q)"
    and "p \<le> k" and "shortPage (orgMembers w organization 100 k)"
  shows "getOrganizationMembers_loop w organization p acc issued
    = Some (Inr (acc @ concat (map (\<lambda>q. map (detailOf w) (pageItems (orgMembers w organization 100 q)))
                                [p..<Suc k])),
            issued @ concat (map (memberPageRequests w organization) [p..<Suc k]))"
  using assms
proof (induction "k - p" arbitrary: p acc issued)
  case 0
  then have "p = k" by simp
  from shortPage_Inr [OF 0(4)] obtain d where
    d: "makeRequest (orgMembers w organization 100 k) = Inr d" "length d \<noteq> 100"
       "pageItems (orgMembers w organization 100 k) = d"
    by blast
  show ?case
    unfolding \<open>p = k\<close>
    by (subst getOrganizationMembers_loop.simps) (simp add: d memberPageRequests_def)
next
  case (Suc n)
  then have lt: "p < k" by simp
  with Suc.prems have "fullPage (orgMembers w organization 100 p)" by simp
  from fullPage_Inr [OF this] obtain d where
    d: "makeRequest (orgMembers w organization 100 p) = Inr d" "length d = 100"
       "pageItems (orgMembers w organization 100 p) = d"
    by blast
  have n: "n = k - Suc p" using Suc.hyps(2) by simp
  have rest: "\<forall>q. Suc p \<le> q \<and> q < k \<longrightarrow> fullPage (orgMembers w organization 100 q)"
    using Suc.prems(1) by simp
  have le: "Suc p \<le> k" using lt by simp
  have upt: "[p..<Suc k] = p # [Suc p..<Suc k]"
    using lt by (simp add: upt_conv_Cons)
  show ?case
    by (subst getOrganizationMembers_loop.simps)
       (simp add: d upt memberPageRequests_def Suc.hyps(1) [OF n rest le Suc.prems(3)]
             del: upt_Suc)
qed

text \<open>
  Claim C6. Each of the two listing iterations asks for pages of 100, page after page from page 1. When the
  pages before page \<open>k\<close> are returned with exactly 100 items and page \<open>k\<close> is returned with
  another number of items (fewer, in particular), the loop returns after page \<open>k\<close>: its
  result is what pages 1 to \<open>k\<close> hold and its requests are exactly those for pages 1 to
  \<open>k\<close>, each with page size 100 (for members, each page followed by the detail lookups of
  its members). When every page is returned with exactly 100 items the loop never returns.
\<close>

theorem pagination_follows_full_pages:
  "((\<forall>q. 1 \<le> q \<and> q < k \<longrightarrow> fullPage (orgRepos w organization 100 q))
      \<and> 1 \<le> k \<and> shortPage (orgRepos w organization 100 k)
     \<longrightarrow> getRepositories w organization
          = Some (Inr (concat (map (\<lambda>q. pageItems (orgRepos w organization 100 q)) [1..<Suc k])),
                  map (GetOrgRepos organization 100) [1..<Suc k]))
   \<and> ((\<forall>q\<ge>1. fullPage (orgRepos w organization 100 q))
     \<longrightarrow> getRepositories w organization = None)
   \<and> ((\<forall>q. 1 \<le> q \<and> q < k \<longrightarrow> fullPage (orgMembers w organization 100 q))
      \<and> 1 \<le> k \<and> shortPage (orgMembers w organization 100 k)
     \<longrightarrow> getOrganizationMembers w organization
          = Some (Inr (concat (map (\<lambda>q. map (detailOf w) (pageItems (orgMembers w organization 100 q)))
                                [1..<Suc k])),
                  concat (map (memberPageRequests w organization) [1..<Suc k])))
   \<and> ((\<forall>q\<ge>1. fullPage (orgMembers w organization 100 q))
     \<longrightarrow> getOrganizationMembers w organization = None)"
proof (intro conjI impI)
  assume "(\<forall>q. 1 \<le> q \<and> q < k \<longrightarrow> fullPage (orgRepos w organization 100 q))
      \<and> 1 \<le> k \<and> shortPage (orgRepos w organization 100 k)"
  then show "getRepositories w organization
          = Some (Inr (concat (map (\<lambda>q. pageItems (orgRepos w organization 100 q)) [1..<Suc k])),
                  map (GetOrgRepos organization 100) [1..<Suc k])"
    using getRepositories_loop_stops [of 1 k w organization "[]" "[]"]
    by (simp add: getRepositories_def del: upt_Suc)
next
  assume "\<forall>q\<ge>1. fullPage (orgRepos w organization 100 q)"
  then show "getRepositories w organization = None"
    unfolding getRepositories_def by (rule getRepositories_loop_never_returns)
next
  assume "(\<forall>q. 1 \<le> q \<and> q < k \<longrightarrow> fullPage (orgMembers w organization 100 q))
      \<and> 1 \<le> k \<and> shortPage (orgMembers w organization 100 k)"
  then show "getOrganizationMembers w organization
          = Some (Inr (concat (map (\<lambda>q. map (detailOf w) (pageItems (orgMembers w organization 100 q)))
                                [1..<Suc k])),
                  concat (map (memberPageRequests w organization) [1..<Suc k]))"
    using getOrganizationMembers_loop_stops [of 1 k w organization "[]" "[]"]
    by (simp add: getOrganizationMembers_def del: upt_Suc)
next
  assume "\<forall>q\<ge>1. fullPage (orgMembers w organization 100 q)"
  then show "getOrganizationMembers w organization = None"
    unfolding getOrganizationMembers_def by (rule getOrganizationMembers_loop_never_returns)
qed


lemma length_hundred: "length hundredRepos = 100" "length hundredMembers = 100"
  by (simp_all add: hundredRepos_def hundredMembers_def)

lemma upt_1_3: "[Suc 0..<3] = [Suc 0, 2]"
  by (simp add: upt_rec)

theorem pagination_follows_full_pages_witness:
  "getRepositories twoPageWorld ''acme''
     = Some (Inr (hundredRepos @ [exampleRepo]), [GetOrgRepos ''acme'' 100 1, GetOrgRepos ''acme'' 100 2])
   \<and> getOrganizationMembers twoPageWorld ''acme''
     = Some (Inr (hundredMembers @ [alice]),
             GetOrgMembers ''acme'' 100 1 # map (\<lambda>member. GetUserDetail (login member)) hundredMembers
               @ [GetOrgMembers ''acme'' 100 2, GetUserDetail ''alice''])
   \<and> getRepositories endlessWorld ''acme'' = None
   \<and> getOrganizationMembers endlessWorld ''acme'' = None"
proof -
  have fullR: "\<forall>q. 1 \<le> q \<and> q < 2 \<longrightarrow> fullPage (orgRepos twoPageWorld ''acme'' 100 q)"
  proof (intro allI impI)
    fix q :: nat assume "1 \<le> q \<and> q < 2"
    then have "q = 1" by simp
    then show "fullPage (orgRepos twoPageWorld ''acme'' 100 q)"
      by (simp add: fullPage_def twoPageWorld_def unreachableWorld_def length_hundred)
  qed
  have shortR: "shortPage (orgRepos twoPageWorld ''acme'' 100 2)"
    by (simp add: shortPage_def twoPageWorld_def unreachableWorld_def)
  have fullM: "\<forall>q. 1 \<le> q \<and> q < 2 \<longrightarrow> fullPage (orgMembers twoPageWorld ''acme'' 100 q)"
  proof (intro allI impI)
    fix q :: nat assume "1 \<le> q \<and> q < 2"
    then have "q = 1" by simp
    then show "fullPage (orgMembers twoPageWorld ''acme'' 100 q)"
      by (simp add: fullPage_def twoPageWorld_def unreachableWorld_def length_hundred)
  qed
  have shortM: "shortPage (orgMembers twoPageWorld ''acme'' 100 2)"
    by (simp add: shortPage_def twoPageWorld_def unreachableWorld_def)
  have endR: "\<forall>q\<ge>1. fullPage (orgRepos endlessWorld ''acme'' 100 q)"
    by (simp add: fullPage_def endlessWorld_def unreachableWorld_def length_hundred)
  have endM: "\<forall>q\<ge>1. fullPage (orgMembers endlessWorld ''acme'' 100 q)"
    by (simp add: fullPage_def endlessWorld_def unreachableWorld_def length_hundred)
  have other: "replicate i (CHR ''m'') \<noteq> ''alice''" for i
    by (cases i) simp_all
  have detail: "map (detailOf twoPageWorld) hundredMembers = hundredMembers"
    by (simp add: hundredMembers_def detailOf_def twoPageWorld_def unreachableWorld_def other)
  have pagesR: "pageItems (orgRepos twoPageWorld ''acme'' 100 (Suc 0)) = hundredRepos"
    "pageItems (orgRepos twoPageWorld ''acme'' 100 2) = [exampleRepo]"
    by (simp_all add: pageItems_def twoPageWorld_def unreachableWorld_def)
  have pagesM: "pageItems (orgMembers twoPageWorld ''acme'' 100 (Suc 0)) = hundredMembers"
    "pageItems (orgMembers twoPageWorld ''acme'' 100 2) = [\<lparr>login = ''alice'', email = None\<rparr>]"
    by (simp_all add: pageItems_def twoPageWorld_def unreachableWorld_def)
  have alice: "detailOf twoPageWorld \<lparr>login = ''alice'', email = None\<rparr> = alice"
    by (simp add: detailOf_def twoPageWorld_def unreachableWorld_def)
  from pagination_follows_full_pages [of 2 twoPageWorld "''acme''"] pagination_follows_full_pages [of 2 endlessWorld "''acme''"]
    fullR shortR fullM shortM endR endM
  show ?thesis
    by (simp add: upt_1_3 pagesR pagesM detail alice memberPageRequests_def del: upt_Suc)
qed


section \<open>Properties of the full analysis\<close>

text \<open>
  Claim C9. If the organization lookup fails, with a status outside 2xx or in
  \<^verbatim>\<open>fetch\<close> itself, \<^verbatim>\<open>performFullAnalysis\<close> ends with that error and no statistics, and
  the lookup is the only request of the run: no repository, member, tree, file, commit or
  pull request is ever requested.
\<close>

theorem failed_lookup_aborts_analysis:
  "(org w organization = NotOk status statusText
      \<longrightarrow> performFullAnalysis w organization
            = Some (Inl (GitHubApiError status statusText), [GetOrg organization]))
   \<and> (org w organization = Failed msg
      \<longrightarrow> performFullAnalysis w organization = Some (Inl (FetchError msg), [GetOrg organization]))
   \<and> (fst (getOrganization w organization) = Inl e
      \<longrightarrow> performFullAnalysis w organization = Some (Inl e, [GetOrg organization]))"
  by (simp add: performFullAnalysis_def getOrganization_def)


theorem failed_lookup_aborts_analysis_witness:
  "org unreachableWorld ''acme'' = NotOk 404 ''Not Found''
   \<and> performFullAnalysis unreachableWorld ''acme''
       = Some (Inl (GitHubApiError 404 ''Not Found''), [GetOrg ''acme''])"
  using failed_lookup_aborts_analysis [of unreachableWorld "''acme''" 404 "''Not Found''"]
  by (simp add: unreachableWorld_def)

text \<open>The guard \<^verbatim>\<open>authorLogin && ...\<close> skips a matching member whose login is the empty
  string. The provider's logins are never empty, which is what the theorem on the tally
  assumes of the roster.\<close>

lemma processCommit_empty_login:
  "processCommit w [nameless] (initUserStats [nameless]) namelessCommit = initUserStats [nameless]"
  by (simp add: processCommit_def findUserByEmail_def nameless_def)

lemma keys_processCommit: "map fst (processCommit w mems m c) = map fst m"
  by (auto simp: processCommit_def update_keys map_of_eq_None_iff image_iff
           split: option.splits dest!: map_of_SomeD)

lemma keys_foldl_processCommit: "map fst (foldl (processCommit w mems) m cs) = map fst m"
  by (induction cs arbitrary: m) (simp_all add: keys_processCommit)

lemma keys_initUserStats_aux:
  "set (map fst (foldl (\<lambda>m member. AList.update (login member) (mk member) m) m0 mems))
     = set (map fst m0) \<union> login ` set mems"
  by (induction mems arbitrary: m0) (simp_all add: dom_update Un_ac)

lemma keys_initUserStats: "set (map fst (initUserStats mems)) = login ` set mems"
  unfolding initUserStats_def by (simp only: keys_initUserStats_aux) simp

lemma findUserByEmail_first:
  "mems = before @ found # rest \<Longrightarrow> email found = Some addr
   \<Longrightarrow> \<forall>u\<in>set before. email u \<noteq> Some addr
   \<Longrightarrow> findUserByEmail mems addr = Some found"
  by (induction before arbitrary: mems) (auto simp: findUserByEmail_def)

lemma findUserByEmail_none:
  "\<forall>u\<in>set mems. email u \<noteq> Some addr \<Longrightarrow> findUserByEmail mems addr = None"
  by (simp add: findUserByEmail_def find_None_iff)

text \<open>
  Claim C8. The roster is the provider's member list, whose logins are never empty. At any
  point of the commit loop of \<^verbatim>\<open>computeUserStats\<close>: if some member's email equals the commit
  author's email, the commits tally of the first such member (kept under that member's
  login) goes up by one and the entry of every other login is unchanged; if no member's
  email equals the commit author's email, the whole map is unchanged.
\<close>

theorem commit_tallied_for_first_matching_member:
  assumes "usm = foldl (processCommit w mems) (initUserStats mems) earlier"
    and "\<forall>u\<in>set mems. login u \<noteq> []"
  shows "(mems = before @ found # rest \<and> email found = Some (actor_email (author c))
          \<and> (\<forall>u\<in>set before. email u \<noteq> Some (actor_email (author c)))
        \<longrightarrow> (\<exists>n. commitsOf usm (login found) = Some n
                \<and> commitsOf (processCommit w mems usm c) (login found) = Some (n + 1))
           \<and> (\<forall>l. l \<noteq> login found \<longrightarrow> map_of (processCommit w mems usm c) l = map_of usm l))
     \<and> ((\<forall>u\<in>set mems. email u \<noteq> Some (actor_email (author c)))
        \<longrightarrow> processCommit w mems usm c = usm)"
proof (intro conjI impI)
  assume h: "mems = before @ found # rest \<and> email found = Some (actor_email (author c))
          \<and> (\<forall>u\<in>set before. email u \<noteq> Some (actor_email (author c)))"
  then have f: "findUserByEmail mems (actor_email (author c)) = Some found"
    by (intro findUserByEmail_first) auto
  from h have member: "found \<in> set mems" by simp
  with assms(2) have ne: "login found \<noteq> []" by blast
  have "set (map fst usm) = login ` set mems"
    unfolding assms(1) by (simp only: keys_foldl_processCommit keys_initUserStats)
  with member have "login found \<in> fst ` set usm" by auto
  then obtain us where us: "map_of usm (login found) = Some us"
    by (cases "map_of usm (login found)") (auto simp: map_of_eq_None_iff)
  show "\<exists>n. commitsOf usm (login found) = Some n
          \<and> commitsOf (processCommit w mems usm c) (login found) = Some (n + 1)"
    by (simp add: commitsOf_def processCommit_def f us ne update_conv')
  show "\<forall>l. l \<noteq> login found \<longrightarrow> map_of (processCommit w mems usm c) l = map_of usm l"
    by (simp add: processCommit_def f us ne update_conv')
next
  assume "\<forall>u\<in>set mems. email u \<noteq> Some (actor_email (author c))"
  then have "findUserByEmail mems (actor_email (author c)) = None"
    by (rule findUserByEmail_none)
  then show "processCommit w mems usm c = usm"
    by (simp add: processCommit_def)
qed

theorem commit_tallied_for_first_matching_member_witness:
  "login bob \<noteq> [] \<and> login alice \<noteq> []
   \<and> commitsOf (initUserStats [bob, alice]) ''alice'' = Some 0
   \<and> commitsOf (processCommit unreachableWorld [bob, alice] (initUserStats [bob, alice]) sampleCommit) ''alice'' = Some 1
   \<and> commitsOf (processCommit unreachableWorld [bob, alice] (initUserStats [bob, alice]) sampleCommit) ''bob'' = Some 0
   \<and> processCommit unreachableWorld [bob, alice] (initUserStats [bob, alice]) (toCommit (rawCommit ''c2'' None))
       = initUserStats [bob, alice]"
proof -
  let ?usm = "initUserStats [bob, alice]"
  have start: "?usm = foldl (processCommit unreachableWorld [bob, alice]) ?usm []"
    by simp
  have addr: "actor_email (author sampleCommit) = ''alice@example.com''"
    "actor_email (author (toCommit (rawCommit ''c2'' None))) = []"
    by (simp_all add: sampleCommit_def toCommit_def toActor_def rawCommit_def authoredAt_def orElse_def)
  have zero: "commitsOf ?usm ''alice'' = Some 0" "commitsOf ?usm ''bob'' = Some 0"
    by (simp_all add: commitsOf_def initUserStats_def bob_def alice_def)
  have logins: "\<forall>u\<in>set [bob, alice]. login u \<noteq> []"
    and named: "login bob \<noteq> []" "login alice \<noteq> []"
    by (simp_all add: alice_def bob_def)
  have first: "[bob, alice] = [bob] @ alice # [] \<and> email alice = Some (actor_email (author sampleCommit))
      \<and> (\<forall>u\<in>set [bob]. email u \<noteq> Some (actor_email (author sampleCommit)))"
    by (simp add: addr alice_def bob_def)
  have nobody: "\<forall>u\<in>set [bob, alice]. email u \<noteq> Some (actor_email (author (toCommit (rawCommit ''c2'' None))))"
    by (simp add: addr alice_def bob_def)
  from commit_tallied_for_first_matching_member [OF start logins, of "[bob]" alice "[]" sampleCommit] first
  have tally: "\<exists>n. commitsOf ?usm (login alice) = Some n
      \<and> commitsOf (processCommit unreachableWorld [bob, alice] ?usm sampleCommit) (login alice) = Some (n + 1)"
    and others: "\<forall>l. l \<noteq> login alice \<longrightarrow>
        map_of (processCommit unreachableWorld [bob, alice] ?usm sampleCommit) l = map_of ?usm l"
    by blast+
  have la: "login alice = ''alice''" by (simp add: alice_def)
  from tally zero(1) have one:
    "commitsOf (processCommit unreachableWorld [bob, alice] ?usm sampleCommit) ''alice'' = Some 1"
    unfolding la by auto
  from others have
    "map_of (processCommit unreachableWorld [bob, alice] ?usm sampleCommit) ''bob'' = map_of ?usm ''bob''"
    unfolding la by simp
  then have bob: "commitsOf (processCommit unreachableWorld [bob, alice] ?usm sampleCommit) ''bob'' = Some 0"
    using zero(2) by (simp add: commitsOf_def)
  from commit_tallied_for_first_matching_member [OF start logins, of "[bob]" alice "[]" "toCommit (rawCommit ''c2'' None)"] nobody
  have "processCommit unreachableWorld [bob, alice] ?usm (toCommit (rawCommit ''c2'' None)) = ?usm"
    by blast
  with zero(1) one bob named show ?thesis by simp
qed


section \<open>Properties of the recent activity\<close>

lemma length_insertBy: "length (insertBy cmp x xs) = Suc (length xs)"
  by (induction xs) auto

lemma length_sort_js: "length (sort_js cmp xs) = length xs"
  by (induction xs) (auto simp: sort_js_def length_insertBy)

lemma set_insertBy: "set (insertBy cmp x xs) = insert x (set xs)"
  by (induction xs) auto

lemma set_sort_js: "set (sort_js cmp xs) = set xs"
  by (induction xs) (auto simp: sort_js_def set_insertBy)

lemma sorted_insertBy:
  assumes "\<forall>a\<in>insert x (set xs). \<forall>b\<in>insert x (set xs). (cmp a b \<le> 0) = (key b \<le> key a)"
    and "sorted_wrt (\<lambda>a b. key b \<le> (key a :: int)) xs"
  shows "sorted_wrt (\<lambda>a b. key b \<le> key a) (insertBy cmp x xs)"
  using assms
proof (induction xs)
  case Nil
  then show ?case by simp
next
  case (Cons y ys)
  show ?case
  proof (cases "cmp x y \<le> 0")
    case True
    with Cons.prems have "key y \<le> key x" by simp
    with Cons.prems(2) True show ?thesis by fastforce
  next
    case False
    with Cons.prems have xy: "key x \<le> key y" by auto
    have "sorted_wrt (\<lambda>a b. key b \<le> key a) (insertBy cmp x ys)"
      using Cons.prems by (intro Cons.IH) auto
    with False xy Cons.prems(2) show ?thesis
      by (auto simp: set_insertBy)
  qed
qed

lemma sorted_sort_js:
  assumes "\<forall>a\<in>set xs. \<forall>b\<in>set xs. (cmp a b \<le> 0) = (key b \<le> (key a :: int))"
  shows "sorted_wrt (\<lambda>a b. key b \<le> key a) (sort_js cmp xs)"
  using assms
proof (induction xs)
  case Nil
  show ?case by (simp add: sort_js_def)
next
  case (Cons x xs)
  have ih: "sorted_wrt (\<lambda>a b. key b \<le> key a) (sort_js cmp xs)"
    using Cons.prems by (intro Cons.IH) auto
  have "sorted_wrt (\<lambda>a b. key b \<le> key a) (insertBy cmp x (sort_js cmp xs))"
    using Cons.prems by (intro sorted_insertBy ih) (auto simp: set_sort_js)
  then show ?case by (simp add: sort_js_def)
qed

lemma recent_commits_bounded:
  "length (activity_commits (recentActivity (computeOrganizationStats w od rs ms us cs pool prs))) \<le> 50
   \<and> length (activity_pullRequests (recentActivity (computeOrganizationStats w od rs ms us cs pool prs))) \<le> 50"
  by (simp add: computeOrganizationStats_def)

lemma recent_commits_sorted_when_dated:
  assumes "\<forall>c\<in>set pool. getTime w (date (author c)) \<noteq> None"
  shows "sorted_wrt (\<lambda>a b. the (getTime w (date (author b))) \<le> the (getTime w (date (author a))))
           (activity_commits (recentActivity (computeOrganizationStats w od rs ms us cs pool prs)))"
proof -
  have "(compareCommits w a b \<le> 0)
            = (the (getTime w (date (author b))) \<le> the (getTime w (date (author a))))"
    if "a \<in> set pool" "b \<in> set pool" for a b
  proof -
    from assms that obtain ta tb where
      "getTime w (date (author a)) = Some ta" "getTime w (date (author b)) = Some tb"
      by fastforce
    then show ?thesis by (simp add: compareCommits_def timeDifference_def)
  qed
  then have "\<forall>a\<in>set pool. \<forall>b\<in>set pool.
          (compareCommits w a b \<le> 0)
            = (the (getTime w (date (author b))) \<le> the (getTime w (date (author a))))"
    by blast
  from sorted_sort_js [of pool "compareCommits w" "\<lambda>c. the (getTime w (date (author c)))", OF this]
  show ?thesis
    by (simp add: computeOrganizationStats_def sorted_wrt_take)
qed

lemma recent_pulls_sorted_when_dated:
  assumes "\<forall>p\<in>set prs. getTime w (created_at p) \<noteq> None"
  shows "sorted_wrt (\<lambda>a b. the (getTime w (created_at b)) \<le> the (getTime w (created_at a)))
           (activity_pullRequests (recentActivity (computeOrganizationStats w od rs ms us cs pool prs)))"
proof -
  have "(comparePullRequests w a b \<le> 0)
            = (the (getTime w (created_at b)) \<le> the (getTime w (created_at a)))"
    if "a \<in> set prs" "b \<in> set prs" for a b
  proof -
    from assms that obtain ta tb where
      "getTime w (created_at a) = Some ta" "getTime w (created_at b) = Some tb"
      by fastforce
    then show ?thesis by (simp add: comparePullRequests_def timeDifference_def)
  qed
  then have "\<forall>a\<in>set prs. \<forall>b\<in>set prs.
          (comparePullRequests w a b \<le> 0)
            = (the (getTime w (created_at b)) \<le> the (getTime w (created_at a)))"
    by blast
  from sorted_sort_js [of prs "comparePullRequests w" "\<lambda>p. the (getTime w (created_at p))", OF this]
  show ?thesis
    by (simp add: computeOrganizationStats_def sorted_wrt_take)
qed

lemma undated_repos:
  "getRepositories undatedWorld ''acme'' = Some (Inr [exampleRepo], [GetOrgRepos ''acme'' 100 1])"
  by (simp add: getRepositories_def getRepositories_loop.simps undatedWorld_def unreachableWorld_def)

lemma undated_members:
  "getOrganizationMembers undatedWorld ''acme'' = Some (Inr [], [GetOrgMembers ''acme'' 100 1])"
  by (simp add: getOrganizationMembers_def getOrganizationMembers_loop.simps undatedWorld_def unreachableWorld_def)

lemma undated_commits:
  "fst (getRepositoryCommits undatedWorld ''acme'' ''demo'' ''main'') = undatedCommits"
  by (simp add: getRepositoryCommits_def undatedWorld_def unreachableWorld_def undatedCommits_def)

lemma undated_pulls:
  "fst (getRepositoryPullRequests undatedWorld ''acme'' ''demo'') = []"
  by (simp add: getRepositoryPullRequests_def undatedWorld_def unreachableWorld_def)

lemma undated_dates:
  "map (\<lambda>c. getTime undatedWorld (date (author c))) undatedCommits
   = [Some 1577836800000, None, Some 1609459200000]"
  by (simp add: undatedCommits_def undatedWorld_def unreachableWorld_def toCommit_def
        toActor_def orElse_def rawCommit_def authoredAt_def sampleTimes_def)

lemma undated_pools:
  "analyzeRepo undatedWorld ''acme'' ([], [], [], []) exampleRepo
     = ([fst (analyzeRepositoryCode undatedWorld exampleRepo)], undatedCommits, [],
        snd (analyzeRepositoryCode undatedWorld exampleRepo)
          @ snd (getRepositoryCommits undatedWorld ''acme'' ''demo'' ''main'')
          @ snd (getRepositoryPullRequests undatedWorld ''acme'' ''demo''))"
proof -
  have n: "name exampleRepo = ''demo''" by (simp add: exampleRepo_def)
  have three: "take 10 undatedCommits = undatedCommits" by (simp add: undatedCommits_def)
  obtain cs r1 where a: "analyzeRepositoryCode undatedWorld exampleRepo = (cs, r1)"
    by (cases "analyzeRepositoryCode undatedWorld exampleRepo")
  obtain cms r2 where b: "getRepositoryCommits undatedWorld ''acme'' ''demo'' ''main'' = (cms, r2)"
    by (cases "getRepositoryCommits undatedWorld ''acme'' ''demo'' ''main''")
  obtain prs r3 where c: "getRepositoryPullRequests undatedWorld ''acme'' ''demo'' = (prs, r3)"
    by (cases "getRepositoryPullRequests undatedWorld ''acme'' ''demo''")
  from undated_commits undated_pulls show ?thesis
    by (simp add: analyzeRepo_def n a b c three)
qed

lemma undated_sorted:
  "sort_js (compareCommits undatedWorld) undatedCommits = undatedCommits"
  by (simp add: sort_js_def compareCommits_def timeDifference_def undatedWorld_def
        unreachableWorld_def toCommit_def toActor_def orElse_def rawCommit_def authoredAt_def
        sampleTimes_def undatedCommits_def)


text \<open>
  Claim C7. The recent commits and pull requests of the returned statistics number at most
  50 each and are sorted by date, newest first. The bound holds, and so does the order when
  every date parses (the three lemmas above). A commit without an author object gets the
  date \<^verbatim>\<open>''\<close>, whose time is \<^verbatim>\<open>NaN\<close>, so the comparator answers \<^verbatim>\<open>NaN\<close> for every pair
  with it, which \<^verbatim>\<open>sort\<close> reads as equal. For the pool below (2020, undated, 2021) every
  neighbouring pair compares equal, the pool is returned as it is, and the commit of 2020
  stays ahead of the commit of 2021.
\<close>

theorem undated_commit_leaves_pool_unsorted:
  "recentCommitTimes undatedWorld ''acme'' = Some [Some 1577836800000, None, Some 1609459200000]"
proof -
  have org: "getOrganization undatedWorld ''acme'' = (Inr \<lparr>org_login = ''acme''\<rparr>, [GetOrg ''acme''])"
    by (simp add: getOrganization_def undatedWorld_def unreachableWorld_def)
  have users: "computeUserStats undatedWorld [] [exampleRepo] undatedCommits [] = Inr []"
    by (simp add: computeUserStats_def initUserStats_def processCommit_def findUserByEmail_def
          undatedCommits_def)
  have three: "take 50 undatedCommits = undatedCommits" by (simp add: undatedCommits_def)
  have "activity_commits (recentActivity
          (computeOrganizationStats undatedWorld \<lparr>org_login = ''acme''\<rparr> [exampleRepo] [] [] cs
             undatedCommits [])) = undatedCommits" for cs
    unfolding computeOrganizationStats_def undated_sorted by (simp add: three)
  then show ?thesis
    using undated_dates
    by (simp add: recentCommitTimes_def performFullAnalysis_def org undated_repos
          undated_members undated_pools users)
qed

end
